theory Spec2Isabelle
  imports
    Complex_Main
    "HOL-Library.Char_ord"
    "HOL-Library.List_Lexorder"
    "HOL-Library.Product_Lexorder"
    "HOL-Library.Multiset"
begin

section \<open>Sales warehouse build and outlier detection\<close>

text \<open>
  A shallow embedding of \<^verbatim>\<open>src/load_data.py\<close> (the star-schema transform and the SQLite
  load), of \<^verbatim>\<open>detect_monthly_outliers\<close> in \<^verbatim>\<open>src/analyze_sales.py\<close> and of
  \<^verbatim>\<open>detect_outlier_months\<close> in \<^verbatim>\<open>dashboard/app.py\<close>.

  Conventions of the model:
  \<^item> a pandas column of strings is a list of \<open>string option\<close>; \<open>None\<close> is the missing
    value (NaN) that \<^verbatim>\<open>read_csv\<close> puts in an empty cell;
  \<^item> strings are compared as Python compares \<^verbatim>\<open>str\<close>: lexicographically by character
    code, a proper prefix first (the order of \<open>HOL-Library.List_Lexorder\<close> over
    \<open>HOL-Library.Char_ord\<close>);
  \<^item> Python integers are \<open>int\<close>; floating-point columns are idealised as \<open>real\<close>, and the
    outlier detector is modelled a second time on IEEE doubles;
  \<^item> an exception is a value \<open>Inl e\<close> of a sum type, \<open>e\<close> naming the exception class.
\<close>

subsection \<open>Exceptions\<close>

text \<open>
  The exception classes the transform can raise. \<open>ValueError\<close> stands for the class and its
  pandas subclasses: \<^verbatim>\<open>IntCastingNaNError\<close> of \<^verbatim>\<open>astype(int)\<close> on a column that
  holds a missing value (its message is the fixed text "Cannot convert non-finite values
  (NA or inf) to integer"), the parser errors of \<^verbatim>\<open>to_datetime\<close>, and
  \<^verbatim>\<open>int(nan)\<close>. \<open>KeyError\<close> is what indexing a \<^verbatim>\<open>dict\<close> with an absent key
  raises; it carries the key. \<open>IntegrityError\<close> and \<open>OperationalError\<close> are the
  \<^verbatim>\<open>sqlite3\<close> exceptions for a violated constraint and for a statement that cannot
  run (a table that exists already, a column the table does not have).
\<close>

datatype py_error =
    ValueError
  | KeyError "string option \<times> string option"
  | IntegrityError
  | OperationalError

subsection \<open>Column helpers\<close>

text \<open>\<^verbatim>\<open>Series.dropna()\<close>: the values present, in order.\<close>

fun dropna :: "'a option list \<Rightarrow> 'a list" where
  "dropna [] = []"
| "dropna (None # vs) = dropna vs"
| "dropna (Some v # vs) = v # dropna vs"

text \<open>
  \<^verbatim>\<open>Series.unique()\<close> and \<^verbatim>\<open>drop_duplicates()\<close>: the first occurrence of every value, in
  order of appearance.
\<close>

fun unique :: "'a list \<Rightarrow> 'a list" where
  "unique [] = []"
| "unique (v # vs) = v # unique (filter (\<lambda>w. w \<noteq> v) vs)"

text \<open>
  \<^verbatim>\<open>dict(zip(keys, values))\<close>: the pairs are stored one after the other, so a later pair
  overrides an earlier one with the same key.
\<close>

definition dict :: "('k \<times> 'v) list \<Rightarrow> ('k \<rightharpoonup> 'v)" where
  "dict kvs = map_of (rev kvs)"

text \<open>
  \<^verbatim>\<open>Series.map(d)\<close> for a dictionary \<open>d\<close>: a value that is missing or is not a key of
  \<open>d\<close> becomes missing.
\<close>

definition series_map :: "('k \<rightharpoonup> 'v) \<Rightarrow> 'k option list \<Rightarrow> 'v option list" where
  "series_map d col = map (\<lambda>v. case v of None \<Rightarrow> None | Some k \<Rightarrow> d k) col"

text \<open>
  \<^verbatim>\<open>Series.astype(int)\<close> on the result of a \<^verbatim>\<open>map\<close>: raises when any entry of the
  column is missing, and returns the column of integers otherwise.
\<close>

definition astype_int :: "int option list \<Rightarrow> py_error + int list" where
  "astype_int col = (if None \<in> set col then Inl ValueError else Inr (dropna col))"

subsection \<open>The dimension extractor\<close>

text \<open>
  A two-column frame \<^verbatim>\<open>{id_col: ..., name_col: ...}\<close>; \<open>rows\<close> pairs the two columns
  row by row.
\<close>

record dimension =
  id_col :: string
  name_col :: string
  rows :: "(int \<times> string) list"

definition build_dimension :: "string option list \<Rightarrow> string \<Rightarrow> string \<Rightarrow> dimension" where
  "build_dimension source idc namec =
     (let vals = sort (unique (dropna source))
      in \<lparr>id_col = idc, name_col = namec,
          rows = zip (map int [1..<length vals + 1]) vals\<rparr>)"

subsection \<open>The raw frame\<close>

text \<open>
  One row of \<^verbatim>\<open>sales_transactions.csv\<close> as \<^verbatim>\<open>read_csv\<close> delivers it. The order date is
  the text of the cell; each natural-key cell may be missing.
\<close>

record raw_transaction =
  order_id :: int
  order_date :: "string option"
  region :: "string option"
  channel :: "string option"
  customer_segment :: "string option"
  category :: "string option"
  product_name :: "string option"
  units_sold :: int
  unit_price :: real
  discount_pct :: real
  gross_revenue :: real
  net_revenue :: real
  cost :: real
  profit :: real

subsection \<open>The date dimension\<close>

text \<open>
  A pandas \<^verbatim>\<open>Timestamp\<close> at midnight, by its calendar fields.
\<close>

record timestamp =
  year :: nat
  month :: nat
  day :: nat

record dim_date_row =
  date_id :: int
  order_date :: string
  year :: int
  month :: int
  month_name :: string
  quarter :: string

definition is_leap_year :: "nat \<Rightarrow> bool" where
  "is_leap_year y = (y mod 4 = 0 \<and> (y mod 100 \<noteq> 0 \<or> y mod 400 = 0))"

definition days_in_month :: "nat \<Rightarrow> nat \<Rightarrow> nat" where
  "days_in_month y m =
     (if m = 2 then (if is_leap_year y then 29 else 28)
      else if m = 4 \<or> m = 6 \<or> m = 9 \<or> m = 11 then 30 else 31)"

text \<open>
  A calendar date that a nanosecond-resolution \<^verbatim>\<open>Timestamp\<close> can hold: midnight of
  1677-09-22 up to midnight of 2262-04-11.
\<close>

definition valid_date :: "nat \<Rightarrow> nat \<Rightarrow> nat \<Rightarrow> bool" where
  "valid_date y m d =
     (1 \<le> m \<and> m \<le> 12 \<and> 1 \<le> d \<and> d \<le> days_in_month y m
      \<and> (1677, 9, 21) < (y, m, d) \<and> (y, m, d) \<le> (2262, 4, 11))"

definition is_digit :: "char \<Rightarrow> bool" where
  "is_digit c = (48 \<le> (of_char c :: nat) \<and> (of_char c :: nat) \<le> 57)"

definition digit_val :: "char \<Rightarrow> nat" where
  "digit_val c = of_char c - 48"

definition digit_char :: "nat \<Rightarrow> char" where
  "digit_char n = ''0123456789'' ! n"

text \<open>The number a string of decimal digits denotes (\<^verbatim>\<open>int(s)\<close>).\<close>

definition int_of_digits :: "string \<Rightarrow> nat" where
  "int_of_digits s = foldl (\<lambda>a c. 10 * a + digit_val c) 0 s"

text \<open>\<^verbatim>\<open>str(n)\<close> for a natural number.\<close>

fun str_nat :: "nat \<Rightarrow> string" where
  "str_nat n = (if n < 10 then [digit_char n] else str_nat (n div 10) @ [digit_char (n mod 10)])"

declare str_nat.simps [simp del]

text \<open>
  \<^verbatim>\<open>pd.to_datetime\<close> on one cell. The raw file holds ISO dates \<^verbatim>\<open>YYYY-MM-DD\<close>, as
  \<^verbatim>\<open>generate_data.py\<close> writes them, and the model parses exactly these. Every other text is
  a \<open>ValueError\<close> here. pandas rejects some of them with a parser error and accepts others
  (\<^verbatim>\<open>2024/03/07\<close>); an accepted one is then not a key of \<^verbatim>\<open>date_map\<close>, whose keys are
  \<^verbatim>\<open>strftime("%Y-%m-%d")\<close> texts, so line 71 maps it to a missing value and its
  \<^verbatim>\<open>astype(int)\<close> raises: the transform ends in a \<open>ValueError\<close> either way. A date
  outside the \<^verbatim>\<open>Timestamp\<close> range raises \<^verbatim>\<open>OutOfBoundsDatetime\<close>, a \<open>ValueError\<close> too.
\<close>

definition to_datetime :: "string \<Rightarrow> py_error + timestamp" where
  "to_datetime s =
     (if length s = 10 \<and> s ! 4 = CHR ''-'' \<and> s ! 7 = CHR ''-''
         \<and> list_all is_digit (take 4 s @ take 2 (drop 5 s) @ drop 8 s)
      then (let y = int_of_digits (take 4 s);
                m = int_of_digits (take 2 (drop 5 s));
                d = int_of_digits (drop 8 s)
            in if valid_date y m d
               then Inr \<lparr>timestamp.year = y, timestamp.month = m, timestamp.day = d\<rparr>
               else Inl ValueError)
      else Inl ValueError)"

text \<open>\<^verbatim>\<open>pd.to_datetime\<close> on a column: a missing cell becomes \<^verbatim>\<open>NaT\<close> (\<open>None\<close>).\<close>

fun to_datetime_series :: "string option list \<Rightarrow> py_error + timestamp option list" where
  "to_datetime_series [] = Inr []"
| "to_datetime_series (None # vs) =
     (case to_datetime_series vs of Inl e \<Rightarrow> Inl e | Inr ts \<Rightarrow> Inr (None # ts))"
| "to_datetime_series (Some s # vs) =
     (case to_datetime s of
        Inl e \<Rightarrow> Inl e
      | Inr t \<Rightarrow> (case to_datetime_series vs of Inl e \<Rightarrow> Inl e | Inr ts \<Rightarrow> Inr (Some t # ts)))"

text \<open>
  \<^verbatim>\<open>sort_values()\<close>, ascending: the values present in the order of their sort key, the
  missing ones after them.
\<close>

definition sort_values :: "('a \<Rightarrow> 'k::linorder) \<Rightarrow> 'a option list \<Rightarrow> 'a option list" where
  "sort_values k vs = map Some (sort_key k (dropna vs)) @ filter (\<lambda>v. v = None) vs"

definition zero_pad2 :: "nat \<Rightarrow> string" where
  "zero_pad2 n = [digit_char (n div 10 mod 10), digit_char (n mod 10)]"

definition zero_pad4 :: "nat \<Rightarrow> string" where
  "zero_pad4 n = [digit_char (n div 1000 mod 10), digit_char (n div 100 mod 10),
                  digit_char (n div 10 mod 10), digit_char (n mod 10)]"

text \<open>
  \<^verbatim>\<open>strftime("%b")\<close> in the C locale, for the months 1 to 12 (a \<^verbatim>\<open>Timestamp\<close> holds no
  other).
\<close>

definition month_abbr :: "nat \<Rightarrow> string" where
  "month_abbr m = [''Jan'', ''Feb'', ''Mar'', ''Apr'', ''May'', ''Jun'',
                   ''Jul'', ''Aug'', ''Sep'', ''Oct'', ''Nov'', ''Dec''] ! (m - 1)"

text \<open>\<^verbatim>\<open>Timestamp.quarter\<close>.\<close>

definition quarter_of :: "nat \<Rightarrow> nat" where
  "quarter_of m = (m - 1) div 3 + 1"

text \<open>
  Lines 23 to 28 of \<^verbatim>\<open>create_dim_date\<close> on one date: \<^verbatim>\<open>strftime("%Y%m%d").astype(int)\<close>,
  the year, the month, \<^verbatim>\<open>strftime("%b")\<close>, \<^verbatim>\<open>"Q" + quarter.astype(str)\<close> and
  \<^verbatim>\<open>strftime("%Y-%m-%d")\<close>.
\<close>

definition date_row :: "timestamp \<Rightarrow> dim_date_row" where
  "date_row ts =
     \<lparr>dim_date_row.date_id =
        int (int_of_digits (zero_pad4 (timestamp.year ts) @ zero_pad2 (timestamp.month ts)
                            @ zero_pad2 (timestamp.day ts))),
      dim_date_row.order_date =
        zero_pad4 (timestamp.year ts) @ ''-'' @ zero_pad2 (timestamp.month ts) @ ''-''
        @ zero_pad2 (timestamp.day ts),
      dim_date_row.year = int (timestamp.year ts),
      dim_date_row.month = int (timestamp.month ts),
      dim_date_row.month_name = month_abbr (timestamp.month ts),
      dim_date_row.quarter = ''Q'' @ str_nat (quarter_of (timestamp.month ts))\<rparr>"

definition ts_key :: "timestamp \<Rightarrow> nat \<times> nat \<times> nat" where
  "ts_key ts = (timestamp.year ts, timestamp.month ts, timestamp.day ts)"

text \<open>
  \<^verbatim>\<open>create_dim_date\<close>. A \<^verbatim>\<open>NaT\<close> survives \<^verbatim>\<open>drop_duplicates\<close> and \<^verbatim>\<open>sort_values\<close>;
  its \<^verbatim>\<open>strftime\<close> is missing, and \<^verbatim>\<open>astype(int)\<close> of line 23 raises on it.
\<close>

definition create_dim_date :: "raw_transaction list \<Rightarrow> py_error + dim_date_row list" where
  "create_dim_date df =
     (case to_datetime_series (map raw_transaction.order_date df) of
        Inl e \<Rightarrow> Inl e
      | Inr parsed \<Rightarrow>
          (let date_values = sort_values ts_key (unique parsed)
           in if None \<in> set date_values then Inl ValueError
              else Inr (map date_row (dropna date_values))))"

subsection \<open>The product dimension and the product lookup\<close>

record dim_product_row =
  product_id :: int
  product_name :: "string option"
  category_id :: int

text \<open>
  The sort key of a column in \<^verbatim>\<open>sort_values([...])\<close>: missing values come last
  (\<^verbatim>\<open>na_position="last"\<close>).
\<close>

definition na_last :: "string option \<Rightarrow> bool \<times> string" where
  "na_last v = (case v of None \<Rightarrow> (True, []) | Some s \<Rightarrow> (False, s))"

text \<open>\<^verbatim>\<open>df[["product_name", "category"]]\<close>.\<close>

definition product_pairs :: "raw_transaction list \<Rightarrow> (string option \<times> string option) list" where
  "product_pairs df = map (\<lambda>r. (raw_transaction.product_name r, raw_transaction.category r)) df"

text \<open>
  Lines 41 to 46:
  \<^verbatim>\<open>.drop_duplicates().sort_values(["category", "product_name"]).reset_index(drop=True)\<close>.
\<close>

definition sorted_product_pairs ::
  "(string option \<times> string option) list \<Rightarrow> (string option \<times> string option) list" where
  "sorted_product_pairs pairs = sort_key (\<lambda>(n, c). (na_last c, na_last n)) (unique pairs)"

text \<open>
  Lines 41 to 49: the product ids \<^verbatim>\<open>np.arange(1, len(dim_product) + 1)\<close> and the category
  ids \<^verbatim>\<open>dim_product["category"].map(category_map).astype(int)\<close>.
\<close>

definition build_dim_product ::
  "(string option \<times> string option) list \<Rightarrow> (string \<rightharpoonup> int) \<Rightarrow> py_error + dim_product_row list" where
  "build_dim_product pairs category_map =
     (let ps = sorted_product_pairs pairs;
          product_ids = map int [1..<length ps + 1]
      in case astype_int (series_map category_map (map snd ps)) of
           Inl e \<Rightarrow> Inl e
         | Inr category_ids \<Rightarrow>
             Inr (map (\<lambda>(pid, (n, c), cid).
                        \<lparr>dim_product_row.product_id = pid, dim_product_row.product_name = n,
                         dim_product_row.category_id = cid\<rparr>)
                      (zip product_ids (zip ps category_ids))))"

text \<open>
  \<^verbatim>\<open>left.merge(right, how="left")\<close> on a key condition: every left row, in order, paired
  with each right row that matches it, or with a missing right side when none does.
\<close>

definition merge_left :: "('l \<Rightarrow> 'r \<Rightarrow> bool) \<Rightarrow> 'l list \<Rightarrow> 'r list \<Rightarrow> ('l \<times> 'r option) list" where
  "merge_left on ls rs =
     concat (map (\<lambda>l. case filter (on l) rs of
                          [] \<Rightarrow> [(l, None)]
                        | ms \<Rightarrow> map (\<lambda>m. (l, Some m)) ms) ls)"

text \<open>
  Lines 57 to 66, \<^verbatim>\<open>product_key_df\<close> restricted to the columns the loop reads: the
  distinct pairs of the raw frame, left-merged with the product dimension (itself
  left-merged with the category dimension on \<^verbatim>\<open>category_id\<close>) on product name and
  category name. pandas matches a missing key with a missing key.
\<close>

definition product_key_df ::
  "(string option \<times> string option) list \<Rightarrow> dim_product_row list \<Rightarrow> dimension
   \<Rightarrow> ((string option \<times> string option) \<times> int option) list" where
  "product_key_df pairs dim_product' dim_category' =
     map (\<lambda>(k, m). (k, map_option (\<lambda>(p, dc). dim_product_row.product_id p) m))
       (merge_left (\<lambda>(n, c) (p, dc). dim_product_row.product_name p = n \<and> map_option snd dc = c)
          (unique pairs)
          (merge_left (\<lambda>p dc. dim_product_row.category_id p = fst dc) dim_product'
             (rows dim_category')))"

text \<open>
  Lines 67 and 68: the loop that fills \<^verbatim>\<open>product_map\<close>. \<^verbatim>\<open>int(record.product_id)\<close>
  raises \<open>ValueError\<close> on a missing id. The keys are tuples; a tuple with a missing
  component is found again because pandas stores the one object \<^verbatim>\<open>nan\<close>.
\<close>

fun product_map_loop ::
  "((string option \<times> string option) \<times> int option) list
   \<Rightarrow> (string option \<times> string option \<rightharpoonup> int)
   \<Rightarrow> py_error + (string option \<times> string option \<rightharpoonup> int)" where
  "product_map_loop [] pm = Inr pm"
| "product_map_loop ((k, None) # recs) pm = Inl ValueError"
| "product_map_loop ((k, Some pid) # recs) pm = product_map_loop recs (pm(k \<mapsto> pid))"

definition build_product_map ::
  "(string option \<times> string option) list \<Rightarrow> dim_product_row list \<Rightarrow> dimension
   \<Rightarrow> py_error + (string option \<times> string option \<rightharpoonup> int)" where
  "build_product_map pairs dim_product' dim_category' =
     product_map_loop (product_key_df pairs dim_product' dim_category') Map.empty"

subsection \<open>The fact assembler\<close>

record fact_sales_row =
  order_id :: int
  date_id :: int
  region_id :: int
  channel_id :: int
  segment_id :: int
  product_id :: int
  units_sold :: int
  unit_price :: real
  discount_pct :: real
  gross_revenue :: real
  net_revenue :: real
  cost :: real
  profit :: real

text \<open>
  Lines 75 to 78: the list comprehension \<^verbatim>\<open>[product_map[(name, category)] for ...]\<close>;
  the first key that is absent raises \<open>KeyError\<close>.
\<close>

fun lookup_all :: "('k \<rightharpoonup> int) \<Rightarrow> 'k list \<Rightarrow> 'k + int list" where
  "lookup_all pm [] = Inr []"
| "lookup_all pm (k # ks) =
     (case pm k of
        None \<Rightarrow> Inl k
      | Some v \<Rightarrow> (case lookup_all pm ks of Inl e \<Rightarrow> Inl e | Inr vs \<Rightarrow> Inr (v # vs)))"

text \<open>
  Lines 70 to 96 of \<^verbatim>\<open>transform_to_star_schema\<close>, with the five lookups as parameters:
  each of the first four key columns is mapped through its dictionary and cast with
  \<^verbatim>\<open>astype(int)\<close>, one column after the other; then the product ids are looked up; then
  the columns of the fact table are selected.
\<close>

definition assemble_fact_sales ::
  "raw_transaction list \<Rightarrow> (string \<rightharpoonup> int) \<Rightarrow> (string \<rightharpoonup> int) \<Rightarrow> (string \<rightharpoonup> int)
   \<Rightarrow> (string \<rightharpoonup> int) \<Rightarrow> (string option \<times> string option \<rightharpoonup> int)
   \<Rightarrow> py_error + fact_sales_row list" where
  "assemble_fact_sales df date_map region_map channel_map segment_map product_map =
     (case astype_int (series_map date_map (map raw_transaction.order_date df)) of
        Inl e \<Rightarrow> Inl e
      | Inr date_ids \<Rightarrow>
     (case astype_int (series_map region_map (map raw_transaction.region df)) of
        Inl e \<Rightarrow> Inl e
      | Inr region_ids \<Rightarrow>
     (case astype_int (series_map channel_map (map raw_transaction.channel df)) of
        Inl e \<Rightarrow> Inl e
      | Inr channel_ids \<Rightarrow>
     (case astype_int (series_map segment_map (map raw_transaction.customer_segment df)) of
        Inl e \<Rightarrow> Inl e
      | Inr segment_ids \<Rightarrow>
     (case lookup_all product_map (product_pairs df) of
        Inl k \<Rightarrow> Inl (KeyError k)
      | Inr product_ids \<Rightarrow>
          Inr (map (\<lambda>(r, d, g, c, s, p).
                     \<lparr>fact_sales_row.order_id = raw_transaction.order_id r,
                      fact_sales_row.date_id = d,
                      fact_sales_row.region_id = g,
                      fact_sales_row.channel_id = c,
                      fact_sales_row.segment_id = s,
                      fact_sales_row.product_id = p,
                      fact_sales_row.units_sold = raw_transaction.units_sold r,
                      fact_sales_row.unit_price = raw_transaction.unit_price r,
                      fact_sales_row.discount_pct = raw_transaction.discount_pct r,
                      fact_sales_row.gross_revenue = raw_transaction.gross_revenue r,
                      fact_sales_row.net_revenue = raw_transaction.net_revenue r,
                      fact_sales_row.cost = raw_transaction.cost r,
                      fact_sales_row.profit = raw_transaction.profit r\<rparr>)
                   (zip df (zip date_ids (zip region_ids (zip channel_ids
                      (zip segment_ids product_ids)))))))))))"

text \<open>
  A key cell is resolved by a lookup when it is present and is a key of the dictionary.
\<close>

definition resolved :: "('k \<rightharpoonup> 'v) \<Rightarrow> 'k option \<Rightarrow> bool" where
  "resolved m c = (case c of None \<Rightarrow> False | Some k \<Rightarrow> m k \<noteq> None)"

subsection \<open>The transform\<close>

text \<open>The seven tables \<^verbatim>\<open>transform_to_star_schema\<close> returns.\<close>

record star_schema =
  dim_date :: "dim_date_row list"
  dim_region :: dimension
  dim_channel :: dimension
  dim_segment :: dimension
  dim_category :: dimension
  dim_product :: "dim_product_row list"
  fact_sales :: "fact_sales_row list"

text \<open>\<^verbatim>\<open>dict(zip(dim[name_col], dim[id_col]))\<close>.\<close>

definition dimension_map :: "dimension \<Rightarrow> (string \<rightharpoonup> int)" where
  "dimension_map dm = dict (zip (map snd (rows dm)) (map fst (rows dm)))"

definition transform_to_star_schema :: "raw_transaction list \<Rightarrow> py_error + star_schema" where
  "transform_to_star_schema df =
     (case create_dim_date df of
        Inl e \<Rightarrow> Inl e
      | Inr dim_date' \<Rightarrow>
     (let dim_region' = build_dimension (map raw_transaction.region df) ''region_id'' ''region_name'';
          dim_channel' = build_dimension (map raw_transaction.channel df) ''channel_id'' ''channel_name'';
          dim_segment' = build_dimension (map raw_transaction.customer_segment df)
                           ''segment_id'' ''segment_name'';
          dim_category' = build_dimension (map raw_transaction.category df)
                            ''category_id'' ''category_name'';
          category_map = dimension_map dim_category'
      in
     (case build_dim_product (product_pairs df) category_map of
        Inl e \<Rightarrow> Inl e
      | Inr dim_product' \<Rightarrow>
     (let date_map = dict (zip (map dim_date_row.order_date dim_date')
                               (map dim_date_row.date_id dim_date'));
          region_map = dimension_map dim_region';
          channel_map = dimension_map dim_channel';
          segment_map = dimension_map dim_segment'
      in
     (case build_product_map (product_pairs df) dim_product' dim_category' of
        Inl e \<Rightarrow> Inl e
      | Inr product_map \<Rightarrow>
     (case assemble_fact_sales df date_map region_map channel_map segment_map product_map of
        Inl e \<Rightarrow> Inl e
      | Inr fact_sales' \<Rightarrow>
          Inr \<lparr>dim_date = dim_date', dim_region = dim_region', dim_channel = dim_channel',
               dim_segment = dim_segment', dim_category = dim_category',
               dim_product = dim_product', fact_sales = fact_sales'\<rparr>))))))"

subsection \<open>The warehouse loader\<close>

text \<open>
  The SQLite database is a map from table names to tables. A table has its column names, the
  columns of its primary key, its foreign keys \<open>(column, parent table, parent column)\<close>
  and its rows, each row a list of values in the order of the columns.
\<close>

datatype sql_value = SqlNull | SqlInt int | SqlReal real | SqlText string

record sql_table =
  tbl_columns :: "string list"
  tbl_primary_key :: "string list"
  tbl_foreign_keys :: "(string \<times> string \<times> string) list"
  tbl_rows :: "sql_value list list"

type_synonym database = "string \<rightharpoonup> sql_table"

text \<open>
  A \<^verbatim>\<open>sqlite3\<close> connection: the committed database (the file), the database as the
  connection sees it (the committed one with the changes of the open transaction), and the
  \<^verbatim>\<open>foreign_keys\<close> pragma, which is off when a connection is opened.
\<close>

record connection =
  committed :: database
  working :: database
  fk_enforced :: bool

definition connect :: "database \<Rightarrow> connection" where
  "connect db = \<lparr>committed = db, working = db, fk_enforced = False\<rparr>"

definition commit :: "connection \<Rightarrow> connection" where
  "commit c = c\<lparr>committed := working c\<rparr>"

definition rollback :: "connection \<Rightarrow> connection" where
  "rollback c = c\<lparr>working := committed c\<rparr>"

text \<open>The statements that occur in \<^verbatim>\<open>drop_sql\<close> and in a schema script.\<close>

datatype statement =
    PragmaForeignKeys bool
  | DropTableIfExists string
  | CreateTable string "string list" "string list" "(string \<times> string \<times> string) list"

text \<open>
  One statement of a script. A script contains no \<^verbatim>\<open>BEGIN\<close>, so SQLite runs each
  statement in autocommit mode: its effect is committed when it completes.
\<close>

fun exec_statement :: "statement \<Rightarrow> connection \<Rightarrow> py_error + connection" where
  "exec_statement (PragmaForeignKeys b) c = Inr (c\<lparr>fk_enforced := b\<rparr>)"
| "exec_statement (DropTableIfExists n) c =
     Inr (commit (c\<lparr>working := (working c)(n := None)\<rparr>))"
| "exec_statement (CreateTable n cols pk fks) c =
     (if working c n \<noteq> None then Inl OperationalError
      else Inr (commit (c\<lparr>working := (working c)(n \<mapsto>
                  \<lparr>tbl_columns = cols, tbl_primary_key = pk,
                   tbl_foreign_keys = fks, tbl_rows = []\<rparr>)\<rparr>)))"

text \<open>
  A step of the loader returns the exception it raised, if any, and the connection as it is
  then.
\<close>

type_synonym step = "connection \<Rightarrow> py_error option \<times> connection"

fun run_script :: "statement list \<Rightarrow> step" where
  "run_script [] c = (None, c)"
| "run_script (st # sts) c =
     (case exec_statement st c of
        Inl e \<Rightarrow> (Some e, c)
      | Inr c' \<Rightarrow> run_script sts c')"

text \<open>
  \<^verbatim>\<open>Connection.executescript\<close>: a pending transaction is committed first, then the
  statements run one after the other; the first that fails raises.
\<close>

definition executescript :: "statement list \<Rightarrow> step" where
  "executescript script c = run_script script (commit c)"

text \<open>A data frame as \<^verbatim>\<open>to_sql\<close> sees it: column names and rows of values.\<close>

record frame =
  frame_columns :: "string list"
  frame_rows :: "sql_value list list"

text \<open>The value of a row in a named column; a column the row does not have is \<^verbatim>\<open>NULL\<close>.\<close>

definition cell :: "string list \<Rightarrow> sql_value list \<Rightarrow> string \<Rightarrow> sql_value" where
  "cell cols row col = (case map_of (zip cols row) col of None \<Rightarrow> SqlNull | Some v \<Rightarrow> v)"

definition primary_key_ok :: "sql_table \<Rightarrow> bool" where
  "primary_key_ok t =
     (tbl_primary_key t = []
      \<or> distinct (map (\<lambda>row. map (cell (tbl_columns t) row) (tbl_primary_key t)) (tbl_rows t)))"

definition foreign_keys_ok :: "database \<Rightarrow> sql_table \<Rightarrow> sql_value list list \<Rightarrow> bool" where
  "foreign_keys_ok db t new_rows =
     list_all (\<lambda>(col, parent, pcol).
        list_all (\<lambda>row.
           cell (tbl_columns t) row col = SqlNull
           \<or> (case db parent of
                 None \<Rightarrow> False
               | Some p \<Rightarrow> cell (tbl_columns t) row col
                             \<in> set (map (\<lambda>prow. cell (tbl_columns p) prow pcol) (tbl_rows p))))
          new_rows)
       (tbl_foreign_keys t)"

text \<open>
  The bulk insert of \<^verbatim>\<open>to_sql\<close>: pandas runs it in \<^verbatim>\<open>run_transaction\<close>, which commits
  when all rows are in and rolls back and re-raises when one is refused.
\<close>

definition insert_rows :: "string \<Rightarrow> frame \<Rightarrow> step" where
  "insert_rows name fr c =
     (case working c name of
        None \<Rightarrow> (Some OperationalError, rollback c)
      | Some t \<Rightarrow>
          if \<not> set (frame_columns fr) \<subseteq> set (tbl_columns t)
          then (Some OperationalError, rollback c)
          else
            (let new_rows = map (\<lambda>row. map (cell (frame_columns fr) row) (tbl_columns t))
                                (frame_rows fr);
                 t' = t\<lparr>tbl_rows := tbl_rows t @ new_rows\<rparr>;
                 db' = (working c)(name \<mapsto> t')
             in if primary_key_ok t' \<and> (if fk_enforced c then foreign_keys_ok db' t new_rows else True)
                then (None, commit (c\<lparr>working := db'\<rparr>))
                else (Some IntegrityError, rollback c)))"

text \<open>
  \<^verbatim>\<open>DataFrame.to_sql(name, connection, if_exists="append", index=False)\<close>: a table that
  does not exist is created from the frame's columns, without constraints; then the rows are
  inserted.
\<close>

definition to_sql :: "string \<Rightarrow> frame \<Rightarrow> step" where
  "to_sql name fr c =
     (case working c name of
        None \<Rightarrow>
          insert_rows name fr
            (commit (c\<lparr>working := (working c)(name \<mapsto>
               \<lparr>tbl_columns = frame_columns fr, tbl_primary_key = [],
                tbl_foreign_keys = [], tbl_rows = []\<rparr>)\<rparr>))
      | Some t \<Rightarrow> insert_rows name fr c)"

text \<open>The seven frames of the transform as \<^verbatim>\<open>to_sql\<close> sees them.\<close>

definition frame_of_dim_date :: "dim_date_row list \<Rightarrow> frame" where
  "frame_of_dim_date dd =
     \<lparr>frame_columns = [''date_id'', ''order_date'', ''year'', ''month'', ''month_name'', ''quarter''],
      frame_rows = map (\<lambda>r. [SqlInt (dim_date_row.date_id r), SqlText (dim_date_row.order_date r),
                               SqlInt (dim_date_row.year r), SqlInt (dim_date_row.month r),
                               SqlText (dim_date_row.month_name r),
                               SqlText (dim_date_row.quarter r)]) dd\<rparr>"

definition frame_of_dimension :: "dimension \<Rightarrow> frame" where
  "frame_of_dimension dm =
     \<lparr>frame_columns = [id_col dm, name_col dm],
      frame_rows = map (\<lambda>(i, n). [SqlInt i, SqlText n]) (rows dm)\<rparr>"

definition frame_of_dim_product :: "dim_product_row list \<Rightarrow> frame" where
  "frame_of_dim_product dp =
     \<lparr>frame_columns = [''product_id'', ''product_name'', ''category_id''],
      frame_rows = map (\<lambda>r. [SqlInt (dim_product_row.product_id r),
                               (case dim_product_row.product_name r of
                                  None \<Rightarrow> SqlNull | Some n \<Rightarrow> SqlText n),
                               SqlInt (dim_product_row.category_id r)]) dp\<rparr>"

definition frame_of_fact_sales :: "fact_sales_row list \<Rightarrow> frame" where
  "frame_of_fact_sales fs =
     \<lparr>frame_columns = [''order_id'', ''date_id'', ''region_id'', ''channel_id'', ''segment_id'',
                        ''product_id'', ''units_sold'', ''unit_price'', ''discount_pct'',
                        ''gross_revenue'', ''net_revenue'', ''cost'', ''profit''],
      frame_rows = map (\<lambda>r. [SqlInt (fact_sales_row.order_id r), SqlInt (fact_sales_row.date_id r),
                               SqlInt (fact_sales_row.region_id r),
                               SqlInt (fact_sales_row.channel_id r),
                               SqlInt (fact_sales_row.segment_id r),
                               SqlInt (fact_sales_row.product_id r),
                               SqlInt (fact_sales_row.units_sold r),
                               SqlReal (fact_sales_row.unit_price r),
                               SqlReal (fact_sales_row.discount_pct r),
                               SqlReal (fact_sales_row.gross_revenue r),
                               SqlReal (fact_sales_row.net_revenue r),
                               SqlReal (fact_sales_row.cost r),
                               SqlReal (fact_sales_row.profit r)]) fs\<rparr>"

text \<open>\<^verbatim>\<open>drop_sql\<close>, lines 113 to 123.\<close>

definition drop_sql :: "statement list" where
  "drop_sql =
     [PragmaForeignKeys False,
      DropTableIfExists ''fact_sales'',
      DropTableIfExists ''dim_product'',
      DropTableIfExists ''dim_category'',
      DropTableIfExists ''dim_customer_segment'',
      DropTableIfExists ''dim_channel'',
      DropTableIfExists ''dim_region'',
      DropTableIfExists ''dim_date'',
      PragmaForeignKeys True]"

text \<open>
  Modelled from the spec: \<^verbatim>\<open>sql/schema.sql\<close> is not among the sources. The seven tables
  with the columns, primary keys and foreign keys of the spec's persisted schema.
\<close>

definition schema_sql :: "statement list" where
  "schema_sql =
     [CreateTable ''dim_date''
        [''date_id'', ''order_date'', ''year'', ''month'', ''month_name'', ''quarter'']
        [''date_id''] [],
      CreateTable ''dim_region'' [''region_id'', ''region_name''] [''region_id''] [],
      CreateTable ''dim_channel'' [''channel_id'', ''channel_name''] [''channel_id''] [],
      CreateTable ''dim_customer_segment'' [''segment_id'', ''segment_name''] [''segment_id''] [],
      CreateTable ''dim_category'' [''category_id'', ''category_name''] [''category_id''] [],
      CreateTable ''dim_product'' [''product_id'', ''product_name'', ''category_id'']
        [''product_id''] [(''category_id'', ''dim_category'', ''category_id'')],
      CreateTable ''fact_sales''
        [''order_id'', ''date_id'', ''region_id'', ''channel_id'', ''segment_id'', ''product_id'',
         ''units_sold'', ''unit_price'', ''discount_pct'', ''gross_revenue'', ''net_revenue'',
         ''cost'', ''profit'']
        [''order_id'']
        [(''date_id'', ''dim_date'', ''date_id''),
         (''region_id'', ''dim_region'', ''region_id''),
         (''channel_id'', ''dim_channel'', ''channel_id''),
         (''segment_id'', ''dim_customer_segment'', ''segment_id''),
         (''product_id'', ''dim_product'', ''product_id'')]]"

text \<open>The statements of a \<^verbatim>\<open>with\<close> body, run in order up to the first exception.\<close>

fun run_steps :: "step list \<Rightarrow> step" where
  "run_steps [] c = (None, c)"
| "run_steps (stp # stps) c =
     (case stp c of
        (Some e, c') \<Rightarrow> (Some e, c')
      | (None, c') \<Rightarrow> run_steps stps c')"

text \<open>
  \<^verbatim>\<open>load_to_sqlite\<close> on the database file \<open>db\<close>, with the schema script as a parameter:
  the body of \<^verbatim>\<open>with sqlite3.connect(DB_PATH) as connection\<close>, after which the
  connection commits when the body ended normally and rolls back when it raised. The result
  is the exception, if any, and the database file afterwards.
\<close>

definition load_to_sqlite :: "statement list \<Rightarrow> star_schema \<Rightarrow> database \<Rightarrow> py_error option \<times> database" where
  "load_to_sqlite schema w db =
     (case run_steps
             [executescript drop_sql,
              executescript schema,
              to_sql ''dim_date'' (frame_of_dim_date (dim_date w)),
              to_sql ''dim_region'' (frame_of_dimension (dim_region w)),
              to_sql ''dim_channel'' (frame_of_dimension (dim_channel w)),
              to_sql ''dim_customer_segment'' (frame_of_dimension (dim_segment w)),
              to_sql ''dim_category'' (frame_of_dimension (dim_category w)),
              to_sql ''dim_product'' (frame_of_dim_product (dim_product w)),
              to_sql ''fact_sales'' (frame_of_fact_sales (fact_sales w))]
             (connect db) of
        (None, c) \<Rightarrow> (None, committed (commit c))
      | (Some e, c) \<Rightarrow> (Some e, committed (rollback c)))"

text \<open>
  \<^verbatim>\<open>main\<close> of \<^verbatim>\<open>load_data.py\<close> on the raw frame read from the CSV file: transform,
  then load.
\<close>

definition main :: "raw_transaction list \<Rightarrow> database \<Rightarrow> py_error option \<times> database" where
  "main sales_df db =
     (case transform_to_star_schema sales_df of
        Inl e \<Rightarrow> (Some e, db)
      | Inr transformed \<Rightarrow> load_to_sqlite schema_sql transformed db)"

subsection \<open>Notions for the loader's properties\<close>

text \<open>The seven tables of the warehouse, as \<^verbatim>\<open>drop_sql\<close> names them.\<close>

definition warehouse_tables :: "string list" where
  "warehouse_tables = [''fact_sales'', ''dim_product'', ''dim_category'', ''dim_customer_segment'',
     ''dim_channel'', ''dim_region'', ''dim_date'']"

text \<open>The database after the seven tables are dropped.\<close>

definition drop_tables :: "database \<Rightarrow> database" where
  "drop_tables db = db(''fact_sales'' := None, ''dim_product'' := None, ''dim_category'' := None,
     ''dim_customer_segment'' := None, ''dim_channel'' := None, ''dim_region'' := None,
     ''dim_date'' := None)"

text \<open>The fact table is absent or holds no row.\<close>

definition fact_empty :: "database \<Rightarrow> bool" where
  "fact_empty db = (case db ''fact_sales'' of None \<Rightarrow> True | Some t \<Rightarrow> tbl_rows t = [])"

text \<open>No transaction is open and the fact table is absent or holds no row.\<close>

definition quiet :: "connection \<Rightarrow> bool" where
  "quiet c = (committed c = working c \<and> fact_empty (working c))"

text \<open>
  A statement is local to a set of tables when it drops or creates only tables of the set
  and every foreign key of a table it creates points into the set; a script is local when
  all its statements are.
\<close>

definition stmt_local :: "string set \<Rightarrow> statement \<Rightarrow> bool" where
  "stmt_local S st =
     (case st of
        PragmaForeignKeys b \<Rightarrow> True
      | DropTableIfExists n \<Rightarrow> n \<in> S
      | CreateTable n cols pk fks \<Rightarrow> n \<in> S \<and> (\<forall>fk \<in> set fks. fst (snd fk) \<in> S))"

definition script_local :: "string list \<Rightarrow> statement list \<Rightarrow> bool" where
  "script_local names script = list_all (stmt_local (set names)) script"

text \<open>
  A connection is settled when no transaction is open and the foreign keys of the tables in
  the set point into the set. Two connections agree on the set when they hold the same
  tables there and the same pragma. A step is local when, run on two settled connections
  that agree, it raises the same exception or none on both, leaves both settled and
  agreeing, and changes no table outside the set.
\<close>

definition settled :: "string set \<Rightarrow> connection \<Rightarrow> bool" where
  "settled S c =
     (committed c = working c
      \<and> (\<forall>n \<in> S. \<forall>t. working c n = Some t \<longrightarrow>
            (\<forall>fk \<in> set (tbl_foreign_keys t). fst (snd fk) \<in> S)))"

definition agree :: "string set \<Rightarrow> connection \<Rightarrow> connection \<Rightarrow> bool" where
  "agree S c1 c2 = (fk_enforced c1 = fk_enforced c2 \<and> (\<forall>n \<in> S. working c1 n = working c2 n))"

definition same_outside :: "string set \<Rightarrow> connection \<Rightarrow> connection \<Rightarrow> bool" where
  "same_outside S c c' = (\<forall>n. n \<notin> S \<longrightarrow> working c' n = working c n)"

definition local_step :: "string set \<Rightarrow> step \<Rightarrow> bool" where
  "local_step S stp =
     (\<forall>c1 c2. settled S c1 \<and> settled S c2 \<and> agree S c1 c2 \<longrightarrow>
        fst (stp c1) = fst (stp c2)
        \<and> settled S (snd (stp c1)) \<and> settled S (snd (stp c2))
        \<and> agree S (snd (stp c1)) (snd (stp c2))
        \<and> same_outside S c1 (snd (stp c1)) \<and> same_outside S c2 (snd (stp c2)))"

subsection \<open>The outlier detector\<close>

text \<open>
  The monthly frame is a list of rows \<open>(c, net_revenue)\<close>, where \<open>c\<close> stands for the
  other columns of the row (year, month, month name, ... in the batch report; the month start
  in the dashboard). Revenue is idealised as a real number here: this is the detector in exact
  arithmetic, without the rounding of the floating-point operations, and with HOL's total
  division, under which a division by zero does not show. The detector on IEEE doubles
  follows in the next subsection.

  \<^verbatim>\<open>Series.mean()\<close> and \<^verbatim>\<open>Series.std(ddof=0)\<close>, the population standard deviation
  (divisor \<open>N\<close>). On the empty series pandas returns NaN for both and HOL's division by
  zero returns 0; the z-score column of the empty frame is empty either way.
\<close>

definition series_mean :: "real list \<Rightarrow> real" where
  "series_mean vs = sum_list vs / real (length vs)"

definition series_std :: "real list \<Rightarrow> real" where
  "series_std vs = sqrt ((\<Sum>v\<leftarrow>vs. (v - series_mean vs)\<^sup>2) / real (length vs))"

text \<open>
  \<^verbatim>\<open>sort_values(col, ascending=False)\<close>: pandas reverses the frame, sorts the reversed
  frame ascending and reverses the result, so rows with equal keys keep their order when
  the sort is stable, as the insertion sort \<open>sort_key\<close> is (numpy's default quicksort is
  an insertion sort up to 16 rows and leaves the order of ties open beyond).
\<close>

definition sort_values_desc :: "('r \<Rightarrow> real) \<Rightarrow> 'r list \<Rightarrow> 'r list" where
  "sort_values_desc col df = rev (sort_key col (rev df))"

text \<open>
  \<^verbatim>\<open>detect_monthly_outliers\<close> of \<^verbatim>\<open>src/analyze_sales.py\<close>. \<open>z_score_monthly\<close> is the
  column \<^verbatim>\<open>outlier_df["z_score"]\<close> (lines 88 to 93); the result rows are the input rows
  with their z-score appended.
\<close>

definition z_score_monthly :: "('c \<times> real) list \<Rightarrow> real list" where
  "z_score_monthly monthly_df =
     (let mean_value = series_mean (map snd monthly_df);
          std_value = series_std (map snd monthly_df)
      in if std_value = 0 then map (\<lambda>r. 0) monthly_df
         else map (\<lambda>r. (snd r - mean_value) / std_value) monthly_df)"

definition detect_monthly_outliers ::
  "('c \<times> real) list \<Rightarrow> real \<Rightarrow> (('c \<times> real) \<times> real) list" where
  "detect_monthly_outliers monthly_df threshold =
     sort_values_desc snd
       (filter (\<lambda>r. \<bar>snd r\<bar> \<ge> threshold) (zip monthly_df (z_score_monthly monthly_df)))"

text \<open>
  \<^verbatim>\<open>detect_outlier_months\<close> of \<^verbatim>\<open>dashboard/app.py\<close>: the same, except that the mean is
  computed inside the else branch.
\<close>

definition z_score_months :: "('c \<times> real) list \<Rightarrow> real list" where
  "z_score_months monthly_df =
     (let std_value = series_std (map snd monthly_df)
      in if std_value = 0 then map (\<lambda>r. 0) monthly_df
         else map (\<lambda>r. (snd r - series_mean (map snd monthly_df)) / std_value) monthly_df)"

definition detect_outlier_months ::
  "('c \<times> real) list \<Rightarrow> real \<Rightarrow> (('c \<times> real) \<times> real) list" where
  "detect_outlier_months monthly_df threshold =
     sort_values_desc snd
       (filter (\<lambda>r. \<bar>snd r\<bar> \<ge> threshold) (zip monthly_df (z_score_months monthly_df)))"

subsection \<open>The outlier detector on doubles\<close>

text \<open>
  A finite IEEE binary64 number is modelled by the real number it denotes, and every
  operation returns the exact result rounded to the nearest double, ties to the even
  significand. \<open>binade\<close> finds the exponent \<open>e\<close> with \<open>2^e \<le> v < 2^(e+1)\<close> of a
  positive number (the first argument bounds the search, and 1100 steps cover every double);
  \<open>fl\<close> rounds to a multiple of \<open>2^(e - 52)\<close>, and of \<open>2^(-1074)\<close> below the normal
  range. Results beyond the largest double, infinities and NaN are outside this model.
\<close>

fun binade :: "nat \<Rightarrow> real \<Rightarrow> int" where
  "binade 0 v = 0"
| "binade (Suc n) v =
     (if 2 \<le> v then binade n (v / 2) + 1
      else if v < 1 then binade n (v * 2) - 1
      else 0)"

definition pow2 :: "int \<Rightarrow> real" where
  "pow2 k = (if 0 \<le> k then 2 ^ nat k else 1 / 2 ^ nat (- k))"

definition round_half_even :: "real \<Rightarrow> int" where
  "round_half_even y =
     (let f = \<lfloor>y\<rfloor>
      in if y - of_int f < 1 / 2 then f
         else if 1 / 2 < y - of_int f then f + 1
         else if even f then f else f + 1)"

definition fl :: "real \<Rightarrow> real" where
  "fl v =
     (if v = 0 then 0
      else (let u = pow2 (max (binade 1100 \<bar>v\<bar>) (- 1022) - 52)
            in of_int (round_half_even (v / u)) * u))"

text \<open>
  \<^verbatim>\<open>Series.sum()\<close> on doubles: the values are added one after the other, each addition
  rounded. This is the order numpy uses for a series of fewer than 8 values; it regroups the
  additions of a longer series.
\<close>

definition sum_f64 :: "real list \<Rightarrow> real" where
  "sum_f64 vs = foldl (\<lambda>s v. fl (s + v)) 0 vs"

text \<open>
  \<^verbatim>\<open>Series.mean()\<close> is the sum divided by the count. \<^verbatim>\<open>Series.std(ddof=0)\<close> is the
  square root of the variance, which pandas computes as \<^verbatim>\<open>avg = sum / count\<close>,
  \<^verbatim>\<open>sqr = (avg - values) ** 2\<close>, \<^verbatim>\<open>sqr.sum() / count\<close>. On the empty series pandas
  returns NaN for both; the z-score column of the empty frame is empty in the model too.
\<close>

definition mean_f64 :: "real list \<Rightarrow> real" where
  "mean_f64 vs = fl (sum_f64 vs / real (length vs))"

definition var_f64 :: "real list \<Rightarrow> real" where
  "var_f64 vs =
     (let avg = fl (sum_f64 vs / real (length vs));
          sqr = map (\<lambda>v. fl (fl (avg - v) * fl (avg - v))) vs
      in fl (sum_f64 sqr / real (length vs)))"

definition std_f64 :: "real list \<Rightarrow> real" where
  "std_f64 vs = fl (sqrt (var_f64 vs))"

text \<open>
  \<^verbatim>\<open>detect_monthly_outliers\<close> of \<^verbatim>\<open>src/analyze_sales.py\<close> on doubles: the guard
  \<^verbatim>\<open>std_value == 0\<close> tests the computed standard deviation, and the subtraction and the
  division of the else branch are rounded.
\<close>

definition z_score_monthly_f64 :: "('c \<times> real) list \<Rightarrow> real list" where
  "z_score_monthly_f64 monthly_df =
     (let mean_value = mean_f64 (map snd monthly_df);
          std_value = std_f64 (map snd monthly_df)
      in if std_value = 0 then map (\<lambda>r. 0) monthly_df
         else map (\<lambda>r. fl (fl (snd r - mean_value) / std_value)) monthly_df)"

definition detect_monthly_outliers_f64 ::
  "('c \<times> real) list \<Rightarrow> real \<Rightarrow> (('c \<times> real) \<times> real) list" where
  "detect_monthly_outliers_f64 monthly_df threshold =
     sort_values_desc snd
       (filter (\<lambda>r. \<bar>snd r\<bar> \<ge> threshold)
          (zip monthly_df (z_score_monthly_f64 monthly_df)))"

subsection \<open>Example data\<close>

text \<open>A raw row in the shape \<^verbatim>\<open>generate_data.py\<close> writes, used to run the model.\<close>

definition example_row :: raw_transaction where
  "example_row =
     \<lparr>raw_transaction.order_id = 100000, raw_transaction.order_date = Some ''2024-03-07'',
      raw_transaction.region = Some ''West'', raw_transaction.channel = Some ''Online'',
      raw_transaction.customer_segment = Some ''Consumer'',
      raw_transaction.category = Some ''Furniture'',
      raw_transaction.product_name = Some ''Desk'',
      raw_transaction.units_sold = 2, raw_transaction.unit_price = 340,
      raw_transaction.discount_pct = 0, raw_transaction.gross_revenue = 680,
      raw_transaction.net_revenue = 680, raw_transaction.cost = 400,
      raw_transaction.profit = 280\<rparr>"

definition example_frame :: "raw_transaction list" where
  "example_frame =
     [example_row,
      example_row\<lparr>raw_transaction.order_id := 100001,
                   raw_transaction.order_date := Some ''2023-11-30'',
                   raw_transaction.region := Some ''East'',
                   raw_transaction.product_name := Some ''Chair''\<rparr>]"

text \<open>The seven tables the transform builds from \<open>example_frame\<close>.\<close>

definition example_warehouse :: star_schema where
  "example_warehouse =
     \<lparr>dim_date =
        [\<lparr>dim_date_row.date_id = 20231130, dim_date_row.order_date = ''2023-11-30'',
          dim_date_row.year = 2023, dim_date_row.month = 11,
          dim_date_row.month_name = ''Nov'', dim_date_row.quarter = ''Q4''\<rparr>,
         \<lparr>dim_date_row.date_id = 20240307, dim_date_row.order_date = ''2024-03-07'',
          dim_date_row.year = 2024, dim_date_row.month = 3,
          dim_date_row.month_name = ''Mar'', dim_date_row.quarter = ''Q1''\<rparr>],
      dim_region = \<lparr>id_col = ''region_id'', name_col = ''region_name'',
                     rows = [(1, ''East''), (2, ''West'')]\<rparr>,
      dim_channel = \<lparr>id_col = ''channel_id'', name_col = ''channel_name'',
                      rows = [(1, ''Online'')]\<rparr>,
      dim_segment = \<lparr>id_col = ''segment_id'', name_col = ''segment_name'',
                      rows = [(1, ''Consumer'')]\<rparr>,
      dim_category = \<lparr>id_col = ''category_id'', name_col = ''category_name'',
                       rows = [(1, ''Furniture'')]\<rparr>,
      dim_product =
        [\<lparr>dim_product_row.product_id = 1, dim_product_row.product_name = Some ''Chair'',
          dim_product_row.category_id = 1\<rparr>,
         \<lparr>dim_product_row.product_id = 2, dim_product_row.product_name = Some ''Desk'',
          dim_product_row.category_id = 1\<rparr>],
      fact_sales =
        [\<lparr>fact_sales_row.order_id = 100000, fact_sales_row.date_id = 20240307,
          fact_sales_row.region_id = 2, fact_sales_row.channel_id = 1,
          fact_sales_row.segment_id = 1, fact_sales_row.product_id = 2,
          fact_sales_row.units_sold = 2, fact_sales_row.unit_price = 340,
          fact_sales_row.discount_pct = 0, fact_sales_row.gross_revenue = 680,
          fact_sales_row.net_revenue = 680, fact_sales_row.cost = 400,
          fact_sales_row.profit = 280\<rparr>,
         \<lparr>fact_sales_row.order_id = 100001, fact_sales_row.date_id = 20231130,
          fact_sales_row.region_id = 1, fact_sales_row.channel_id = 1,
          fact_sales_row.segment_id = 1, fact_sales_row.product_id = 1,
          fact_sales_row.units_sold = 2, fact_sales_row.unit_price = 340,
          fact_sales_row.discount_pct = 0, fact_sales_row.gross_revenue = 680,
          fact_sales_row.net_revenue = 680, fact_sales_row.cost = 400,
          fact_sales_row.profit = 280\<rparr>]\<rparr>"

text \<open>
  A raw frame in which one CSV line occurs twice, so that \<open>order_id\<close> repeats, and the
  tables the transform builds from it.
\<close>

definition duplicate_frame :: "raw_transaction list" where
  "duplicate_frame = [example_row, example_row]"

definition duplicate_warehouse :: star_schema where
  "duplicate_warehouse =
     \<lparr>dim_date =
        [\<lparr>dim_date_row.date_id = 20240307, dim_date_row.order_date = ''2024-03-07'',
          dim_date_row.year = 2024, dim_date_row.month = 3,
          dim_date_row.month_name = ''Mar'', dim_date_row.quarter = ''Q1''\<rparr>],
      dim_region = \<lparr>id_col = ''region_id'', name_col = ''region_name'',
                     rows = [(1, ''West'')]\<rparr>,
      dim_channel = \<lparr>id_col = ''channel_id'', name_col = ''channel_name'',
                      rows = [(1, ''Online'')]\<rparr>,
      dim_segment = \<lparr>id_col = ''segment_id'', name_col = ''segment_name'',
                      rows = [(1, ''Consumer'')]\<rparr>,
      dim_category = \<lparr>id_col = ''category_id'', name_col = ''category_name'',
                       rows = [(1, ''Furniture'')]\<rparr>,
      dim_product =
        [\<lparr>dim_product_row.product_id = 1, dim_product_row.product_name = Some ''Desk'',
          dim_product_row.category_id = 1\<rparr>],
      fact_sales =
        [\<lparr>fact_sales_row.order_id = 100000, fact_sales_row.date_id = 20240307,
          fact_sales_row.region_id = 1, fact_sales_row.channel_id = 1,
          fact_sales_row.segment_id = 1, fact_sales_row.product_id = 1,
          fact_sales_row.units_sold = 2, fact_sales_row.unit_price = 340,
          fact_sales_row.discount_pct = 0, fact_sales_row.gross_revenue = 680,
          fact_sales_row.net_revenue = 680, fact_sales_row.cost = 400,
          fact_sales_row.profit = 280\<rparr>,
         \<lparr>fact_sales_row.order_id = 100000, fact_sales_row.date_id = 20240307,
          fact_sales_row.region_id = 1, fact_sales_row.channel_id = 1,
          fact_sales_row.segment_id = 1, fact_sales_row.product_id = 1,
          fact_sales_row.units_sold = 2, fact_sales_row.unit_price = 340,
          fact_sales_row.discount_pct = 0, fact_sales_row.gross_revenue = 680,
          fact_sales_row.net_revenue = 680, fact_sales_row.cost = 400,
          fact_sales_row.profit = 280\<rparr>]\<rparr>"

section \<open>Properties\<close>

subsection \<open>Helper lemmas on columns\<close>

lemma set_dropna: "set (dropna col) = {v. Some v \<in> set col}"
  by (induction col rule: dropna.induct) auto

lemma length_dropna: "None \<notin> set col \<Longrightarrow> length (dropna col) = length col"
  by (induction col rule: dropna.induct) auto

lemma map_Some_dropna: "None \<notin> set col \<Longrightarrow> map Some (dropna col) = col"
  by (induction col rule: dropna.induct) auto

lemma set_unique: "set (unique vs) = set vs"
  by (induction vs rule: unique.induct) auto

lemma distinct_unique: "distinct (unique vs)"
  by (induction vs rule: unique.induct) (auto simp: set_unique)

lemma length_unique: "length (unique vs) = card (set vs)"
  using distinct_card [OF distinct_unique, of vs] by (simp add: set_unique)

lemma zip_ids_fst: "map fst (zip (map int [1..<length vs + 1]) vs) = map int [1..<length vs + 1]"
  by (rule map_fst_zip) (simp del: upt_Suc)

lemma zip_ids_snd: "map snd (zip (map int [1..<length vs + 1]) vs) = vs"
  by (rule map_snd_zip) (simp del: upt_Suc)

subsection \<open>The dimension extractor\<close>

text \<open>
  Claim C4. For every column of strings, with duplicates and missing values allowed,
  \<^verbatim>\<open>build_dimension\<close> returns one row per distinct value that is present: the names are
  exactly the values present, strictly ascending in the case-sensitive lexicographic order
  (so sorted and without repeats), the surrogate keys are \<open>1, 2, ..., N\<close> in that order
  with \<open>N\<close> the number of distinct values present, and the empty column gives the empty
  table. The last conjunct runs the function on a column with a missing value, a duplicate and
  two names that differ in case only.
\<close>

theorem build_dimension_keys_dense_sorted:
  "set (map snd (rows (build_dimension source idc namec))) = {v. Some v \<in> set source}
   \<and> sorted_wrt (<) (map snd (rows (build_dimension source idc namec)))
   \<and> map fst (rows (build_dimension source idc namec))
       = map int [1..<card {v. Some v \<in> set source} + 1]
   \<and> length (rows (build_dimension source idc namec)) = card {v. Some v \<in> set source}
   \<and> rows (build_dimension [] idc namec) = []
   \<and> rows (build_dimension [Some ''b'', None, Some ''B'', Some ''b'', Some ''Ba''] idc namec)
       = [(1, ''B''), (2, ''Ba''), (3, ''b'')]"
proof -
  let ?vals = "sort (unique (dropna source))"
  have len: "length ?vals = card {v. Some v \<in> set source}"
    by (simp add: length_unique set_dropna)
  have names: "map snd (rows (build_dimension source idc namec)) = ?vals"
    unfolding build_dimension_def Let_def by (simp only: dimension.simps zip_ids_snd)
  have ids: "map fst (rows (build_dimension source idc namec)) = map int [1..<length ?vals + 1]"
    unfolding build_dimension_def Let_def by (simp only: dimension.simps zip_ids_fst)
  have "distinct ?vals"
    by (simp add: distinct_unique)
  then have strict: "sorted_wrt (<) ?vals"
    by (simp add: strict_sorted_iff)
  have ex: "rows (build_dimension [Some ''b'', None, Some ''B'', Some ''b'', Some ''Ba''] idc namec)
       = [(1, ''B''), (2, ''Ba''), (3, ''b'')]"
    by (simp add: build_dimension_def Let_def upt_rec)
  have empty: "rows (build_dimension [] idc namec) = []"
    by (simp add: build_dimension_def)
  have "set ?vals = {v. Some v \<in> set source}"
    by (simp add: set_dropna set_unique)
  moreover have "length (rows (build_dimension source idc namec)) = length ?vals"
    using names by (metis length_map)
  ultimately show ?thesis
    using len names ids strict ex empty by simp
qed

subsection \<open>The outlier detector\<close>





text \<open>
  In exact arithmetic a series of equal values has standard deviation 0. On doubles the mean
  of equal values can differ from them by a rounding error, and the guard of the detector
  tests the computed value: see \<open>std_f64\<close> on three values 0.1 below.
\<close>

lemma sum_sq_dev_constant: "\<forall>v \<in> set vs. v = m \<Longrightarrow> (\<Sum>v\<leftarrow>vs. (v - m)\<^sup>2) = (0::real)"
  by (induction vs) auto

lemma series_std_constant:
  assumes "\<forall>v \<in> set vs. v = c"
  shows "series_std vs = 0"
proof (cases "vs = []")
  case True
  then show ?thesis by (simp add: series_std_def)
next
  case False
  have vs: "vs = replicate (length vs) c"
    using assms by (simp add: replicate_length_same)
  have "series_mean (replicate n c) = c" if "n \<noteq> 0" for n
    using that by (simp add: series_mean_def sum_list_replicate)
  then have "series_mean vs = c"
    using vs False by (metis length_0_conv)
  then have "(\<Sum>v\<leftarrow>vs. (v - series_mean vs)\<^sup>2) = 0"
    using assms sum_sq_dev_constant [of vs c] by simp
  then show ?thesis
    by (simp add: series_std_def)
qed

lemma binade_numeral:
  "binade (numeral k) v =
     (if 2 \<le> v then binade (pred_numeral k) (v / 2) + 1
      else if v < 1 then binade (pred_numeral k) (v * 2) - 1
      else 0)"
  by (simp add: numeral_eq_Suc)

lemmas fl_eval = fl_def pow2_def round_half_even_def binade_numeral Let_def

lemma double_tenth: "fl (1 / 10) = 7205759403792794 / 2 ^ 56"
  by (simp add: fl_eval)

lemma mean_three_tenths:
  "mean_f64 [fl (1 / 10), fl (1 / 10), fl (1 / 10)] = 7205759403792795 / 2 ^ 56"
  by (simp add: mean_f64_def sum_f64_def fl_eval)

lemma var_three_tenths: "var_f64 [fl (1 / 10), fl (1 / 10), fl (1 / 10)] = 1 / 2 ^ 112"
  by (simp add: var_f64_def sum_f64_def fl_eval)

lemma sqrt_pow2_112: "sqrt (1 / 2 ^ 112) = 1 / 2 ^ 56"
proof (rule real_sqrt_unique)
  show "(1 / 2 ^ 56 :: real)\<^sup>2 = 1 / 2 ^ 112"
    by (simp add: power_divide)
  show "0 \<le> (1 / 2 ^ 56 :: real)"
    by simp
qed

lemma std_three_tenths: "std_f64 [fl (1 / 10), fl (1 / 10), fl (1 / 10)] = 1 / 2 ^ 56"
proof -
  have "std_f64 [fl (1 / 10), fl (1 / 10), fl (1 / 10)] = fl (sqrt (1 / 2 ^ 112))"
    unfolding std_f64_def by (simp only: var_three_tenths)
  also have "\<dots> = fl (1 / 2 ^ 56)"
    by (simp only: sqrt_pow2_112)
  also have "\<dots> = 1 / 2 ^ 56"
    by (simp add: fl_eval)
  finally show ?thesis .
qed

lemma z_score_three_tenths:
  "z_score_monthly_f64 [(1::nat, fl (1 / 10)), (2, fl (1 / 10)), (3, fl (1 / 10))]
   = [- 1, - 1, - 1]"
proof -
  have m: "mean_f64 (map snd [(1::nat, fl (1 / 10)), (2, fl (1 / 10)), (3, fl (1 / 10))])
           = 7205759403792795 / 2 ^ 56"
    using mean_three_tenths by simp
  have s: "std_f64 (map snd [(1::nat, fl (1 / 10)), (2, fl (1 / 10)), (3, fl (1 / 10))])
           = 1 / 2 ^ 56"
    using std_three_tenths by simp
  show ?thesis
    unfolding z_score_monthly_f64_def m s by (simp add: fl_eval)
qed

text \<open>
  The spec's own example, four months of revenue 100, takes the guard on doubles: the sum
  and the mean are exact there.
\<close>

lemma z_score_four_hundreds:
  "z_score_monthly_f64 [(1::nat, 100), (2, 100), (3, 100), (4, 100)] = [0, 0, 0, 0]"
  by (simp add: z_score_monthly_f64_def std_f64_def var_f64_def mean_f64_def sum_f64_def fl_eval)

text \<open>
  Claim C3 says that a series of identical values gets the z-score 0.0 in every month and
  that no month is flagged at any positive threshold. The code breaks it on three months of
  revenue 0.1 at threshold 1.0. The double nearest to 0.1 is \<open>7205759403792794 / 2^56\<close>;
  the sum of three of them rounds up, so the computed mean is \<open>7205759403792795 / 2^56\<close>,
  one unit in the last place above the values; the computed standard deviation is \<open>2^-56\<close>
  and not 0; the guard is not taken; every z-score is -1.0, and all three months are
  returned.
\<close>

theorem equal_revenues_flagged_on_doubles:
  "fl (1 / 10) = 7205759403792794 / 2 ^ 56
   \<and> mean_f64 [fl (1 / 10), fl (1 / 10), fl (1 / 10)] = 7205759403792795 / 2 ^ 56
   \<and> std_f64 [fl (1 / 10), fl (1 / 10), fl (1 / 10)] = 1 / 2 ^ 56
   \<and> z_score_monthly_f64 [(1::nat, fl (1 / 10)), (2, fl (1 / 10)), (3, fl (1 / 10))]
       = [- 1, - 1, - 1]
   \<and> map fst (detect_monthly_outliers_f64
                 [(1::nat, fl (1 / 10)), (2, fl (1 / 10)), (3, fl (1 / 10))] 1)
       = [(1, fl (1 / 10)), (2, fl (1 / 10)), (3, fl (1 / 10))]"
proof (intro conjI)
  show "fl (1 / 10) = 7205759403792794 / 2 ^ 56"
    by (rule double_tenth)
  show "mean_f64 [fl (1 / 10), fl (1 / 10), fl (1 / 10)] = 7205759403792795 / 2 ^ 56"
    by (rule mean_three_tenths)
  show "std_f64 [fl (1 / 10), fl (1 / 10), fl (1 / 10)] = 1 / 2 ^ 56"
    by (rule std_three_tenths)
  show "z_score_monthly_f64 [(1::nat, fl (1 / 10)), (2, fl (1 / 10)), (3, fl (1 / 10))]
        = [- 1, - 1, - 1]"
    by (rule z_score_three_tenths)
  show "map fst (detect_monthly_outliers_f64
                   [(1::nat, fl (1 / 10)), (2, fl (1 / 10)), (3, fl (1 / 10))] 1)
        = [(1, fl (1 / 10)), (2, fl (1 / 10)), (3, fl (1 / 10))]"
    unfolding detect_monthly_outliers_f64_def z_score_three_tenths
    by (simp add: sort_values_desc_def)
qed



text \<open>
  Claim C10. The batch report's \<^verbatim>\<open>detect_monthly_outliers\<close> and the dashboard's
  \<^verbatim>\<open>detect_outlier_months\<close> compute the same z-score column and return the same rows in
  the same order, for every monthly frame and every threshold.
\<close>

theorem detectors_equivalent:
  "z_score_monthly monthly_df = z_score_months monthly_df
   \<and> detect_monthly_outliers monthly_df threshold = detect_outlier_months monthly_df threshold"
  by (simp add: z_score_monthly_def z_score_months_def
      detect_monthly_outliers_def detect_outlier_months_def Let_def)

subsection \<open>The date dimension\<close>

lemma lt10_cases: "n < 10 \<Longrightarrow> n \<in> {0, 1, 2, 3, 4, 5, 6, 7, 8, 9::nat}"
  by auto

lemma digit_val_digit_char: "n < 10 \<Longrightarrow> digit_val (digit_char n) = n"
  by (drule lt10_cases) (auto simp: digit_val_def digit_char_def)

lemma foldl_zero_pad2:
  assumes "n < 100"
  shows "foldl (\<lambda>a c. 10 * a + digit_val c) a (zero_pad2 n) = a * 100 + n"
proof -
  have "n div 10 mod 10 = n div 10"
    using assms by simp
  then have "foldl (\<lambda>a c. 10 * a + digit_val c) a (zero_pad2 n) = a * 100 + (n div 10 * 10 + n mod 10)"
    by (simp add: zero_pad2_def digit_val_digit_char)
  then show ?thesis
    by simp
qed

lemma foldl_zero_pad4:
  assumes "n < 10000"
  shows "foldl (\<lambda>a c. 10 * a + digit_val c) a (zero_pad4 n) = a * 10000 + n"
proof -
  define q where "q = n div 100"
  define r where "r = n mod 100"
  have q: "q < 100" and r: "r < 100"
    using assms by (simp_all add: q_def r_def less_mult_imp_div_less)
  have n: "n = q * 100 + r"
    by (simp add: q_def r_def)
  have "n div 1000 = n div (100 * 10)"
    by simp
  then have d3: "n div 1000 mod 10 = q div 10 mod 10"
    by (simp only: div_mult2_eq q_def)
  have d2: "n div 100 mod 10 = q mod 10"
    by (simp add: q_def)
  have "n mod (10 * 10) = 10 * (n div 10 mod 10) + n mod 10"
    by (rule mod_mult2_eq)
  then have r10: "r = 10 * (n div 10 mod 10) + n mod 10"
    by (simp add: r_def)
  have "r div 10 = n div 10 mod 10"
    by (subst r10) simp
  then have d1: "n div 10 mod 10 = r div 10 mod 10"
    by simp
  have "r mod 10 = n mod 10"
    by (subst r10) simp
  then have d0: "n mod 10 = r mod 10"
    by simp
  have "zero_pad4 n = zero_pad2 q @ zero_pad2 r"
    by (simp add: zero_pad4_def zero_pad2_def d0 d1 d2 d3)
  then show ?thesis
    using q r by (simp add: foldl_zero_pad2 n)
qed

lemma int_of_digits_Ymd:
  assumes "y < 10000" "m < 100" "d < 100"
  shows "int_of_digits (zero_pad4 y @ zero_pad2 m @ zero_pad2 d) = y * 10000 + m * 100 + d"
  using assms by (simp add: int_of_digits_def foldl_zero_pad4 foldl_zero_pad2)

lemma valid_date_bounds:
  "valid_date y m d \<Longrightarrow> 1677 \<le> y \<and> y \<le> 2262 \<and> 1 \<le> m \<and> m \<le> 12 \<and> 1 \<le> d \<and> d \<le> 31"
  by (auto simp: valid_date_def days_in_month_def less_prod_def less_eq_prod_def split: if_splits)

lemma quarter_of_ceiling: "1 \<le> m \<Longrightarrow> quarter_of m = nat \<lceil>real m / 3\<rceil>"
proof -
  assume m: "1 \<le> m"
  have "\<lceil>real m / 3\<rceil> = \<lceil>real_of_int (int m) / real_of_int 3\<rceil>"
    by simp
  also have "\<dots> = - (- int m div 3)"
    by (simp only: ceiling_divide_eq_div)
  finally have "nat \<lceil>real m / 3\<rceil> = nat (- (- int m div 3))"
    by simp
  also have "\<dots> = (m - 1) div 3 + 1"
    using m by (simp add: nat_eq_iff) presburger
  finally show ?thesis
    by (simp add: quarter_of_def)
qed

lemma month_abbr_length: "1 \<le> m \<Longrightarrow> m \<le> 12 \<Longrightarrow> length (month_abbr m) = 3"
proof -
  assume "1 \<le> m" "m \<le> 12"
  then have "m - 1 \<in> {0, 1, 2, 3, 4, 5, 6, 7, 8, 9, 10, 11}"
    by (simp only: insert_iff empty_iff) presburger
  then show ?thesis
    unfolding month_abbr_def by auto
qed

lemma to_datetime_valid:
  "to_datetime s = Inr ts \<Longrightarrow> valid_date (timestamp.year ts) (timestamp.month ts) (timestamp.day ts)"
  by (auto simp: to_datetime_def Let_def split: if_splits)

lemma digit_char_digit_val: "is_digit c \<Longrightarrow> digit_char (digit_val c) = c"
proof -
  assume "is_digit c"
  then have "(of_char c :: nat) \<in> {48, 49, 50, 51, 52, 53, 54, 55, 56, 57}"
    unfolding is_digit_def by (simp only: insert_iff empty_iff) presburger
  then have "(of_char c :: nat) \<in> of_char ` set ''0123456789''"
    by simp
  then have "c \<in> set ''0123456789''"
    by (simp only: inj_image_mem_iff [OF inj_of_char])
  then show ?thesis
    by (auto simp: digit_char_def digit_val_def)
qed

lemma digit_val_lt10: "is_digit c \<Longrightarrow> digit_val c < 10"
  by (auto simp: is_digit_def digit_val_def)

lemma zero_pad2_digits:
  assumes "is_digit a" "is_digit b"
  shows "zero_pad2 (int_of_digits [a, b]) = [a, b]"
proof -
  have "digit_val a < 10" "digit_val b < 10"
    using assms by (simp_all add: digit_val_lt10)
  then have "(10 * digit_val a + digit_val b) div 10 mod 10 = digit_val a"
    and "(10 * digit_val a + digit_val b) mod 10 = digit_val b"
    by simp_all
  then show ?thesis
    using assms by (simp add: zero_pad2_def int_of_digits_def digit_char_digit_val)
qed

lemma zero_pad4_split: "zero_pad4 n = zero_pad2 (n div 100) @ zero_pad2 (n mod 100)"
proof -
  have "n div 1000 = n div (100 * 10)"
    by simp
  then have d3: "n div 1000 mod 10 = n div 100 div 10 mod 10"
    by (simp only: div_mult2_eq)
  have r10: "n mod (10 * 10) = 10 * (n div 10 mod 10) + n mod 10"
    by (rule mod_mult2_eq)
  have d1: "n mod 100 div 10 = n div 10 mod 10" and d0: "n mod 100 mod 10 = n mod 10"
    using r10 by simp_all
  show ?thesis
    by (simp add: zero_pad4_def zero_pad2_def d0 d1 d3)
qed

lemma zero_pad4_digits:
  assumes "is_digit a" "is_digit b" "is_digit c" "is_digit d"
  shows "zero_pad4 (int_of_digits [a, b, c, d]) = [a, b, c, d]"
proof -
  have lt: "int_of_digits [c, d] < 100"
    using digit_val_lt10 [OF assms(3)] digit_val_lt10 [OF assms(4)]
    by (simp add: int_of_digits_def)
  have n: "int_of_digits [a, b, c, d] = int_of_digits [a, b] * 100 + int_of_digits [c, d]"
    by (simp add: int_of_digits_def)
  have "int_of_digits [a, b, c, d] div 100 = int_of_digits [a, b]"
    and "int_of_digits [a, b, c, d] mod 100 = int_of_digits [c, d]"
    using lt by (simp_all add: n)
  then show ?thesis
    using assms by (simp add: zero_pad4_split zero_pad2_digits)
qed

lemma length10_cases:
  "length s = 10 \<Longrightarrow> \<exists>a b c d e f g h i j. s = [a, b, c, d, e, f, g, h, i, j]"
  by (auto simp: numeral_eq_Suc length_Suc_conv)

lemma to_datetime_roundtrip:
  assumes "to_datetime s = Inr ts"
  shows "zero_pad4 (timestamp.year ts) @ ''-'' @ zero_pad2 (timestamp.month ts) @ ''-''
         @ zero_pad2 (timestamp.day ts) = s"
proof -
  have len: "length s = 10" and sep: "s ! 4 = CHR ''-''" "s ! 7 = CHR ''-''"
    and dig: "list_all is_digit (take 4 s @ take 2 (drop 5 s) @ drop 8 s)"
    and ts: "timestamp.year ts = int_of_digits (take 4 s)"
      "timestamp.month ts = int_of_digits (take 2 (drop 5 s))"
      "timestamp.day ts = int_of_digits (drop 8 s)"
    using assms by (auto simp: to_datetime_def Let_def split: if_splits)
  from length10_cases [OF len] obtain a b c d e f g h i j
    where s: "s = [a, b, c, d, e, f, g, h, i, j]"
    by (elim exE)
  show ?thesis
    using sep dig unfolding ts s
    by (simp add: zero_pad4_digits zero_pad2_digits)
qed

lemma to_datetime_series_rel:
  "to_datetime_series col = Inr parsed \<Longrightarrow>
   list_all2 (\<lambda>c p. case c of None \<Rightarrow> p = None
                      | Some s \<Rightarrow> (\<exists>t. to_datetime s = Inr t \<and> p = Some t)) col parsed"
  by (induction col arbitrary: parsed rule: to_datetime_series.induct)
     (auto split: sum.splits)

lemma set_sort_values: "set (sort_values k vs) = set vs"
proof -
  have "Some ` set (dropna vs) \<union> {v \<in> set vs. v = None} = set vs"
    by (auto simp: set_dropna image_iff) (metis option.exhaust)
  then show ?thesis
    by (simp add: sort_values_def)
qed

lemma dropna_map_Some: "dropna (map Some vs) = vs"
  by (induction vs) auto

lemma dropna_append: "dropna (us @ vs) = dropna us @ dropna vs"
  by (induction us rule: dropna.induct) auto

lemma dropna_sort_values: "dropna (sort_values k vs) = sort_key k (dropna vs)"
proof -
  have "dropna (filter (\<lambda>v. v = None) vs) = []"
    by (induction vs rule: dropna.induct) auto
  then show ?thesis
    by (simp add: sort_values_def dropna_append dropna_map_Some)
qed

lemma distinct_dropna: "distinct vs \<Longrightarrow> distinct (dropna vs)"
  by (induction vs rule: dropna.induct) (auto simp: set_dropna)

lemma create_dim_date_Inr:
  assumes "create_dim_date df = Inr dd"
  obtains parsed where "to_datetime_series (map raw_transaction.order_date df) = Inr parsed"
    and "None \<notin> set parsed"
    and "dd = map date_row (sort_key ts_key (dropna (unique parsed)))"
proof -
  from assms obtain parsed
    where p: "to_datetime_series (map raw_transaction.order_date df) = Inr parsed"
      and n: "None \<notin> set (sort_values ts_key (unique parsed))"
      and d: "dd = map date_row (dropna (sort_values ts_key (unique parsed)))"
    by (auto simp: create_dim_date_def Let_def split: sum.splits if_splits)
  from n have "None \<notin> set parsed"
    by (simp add: set_sort_values set_unique)
  moreover from d have "dd = map date_row (sort_key ts_key (dropna (unique parsed)))"
    by (simp add: dropna_sort_values)
  ultimately show thesis
    using p that by blast
qed

lemma parsed_of_cell:
  assumes "to_datetime_series col = Inr parsed" and "c \<in> set col" and "None \<notin> set parsed"
  shows "\<exists>s t. c = Some s \<and> to_datetime s = Inr t \<and> Some t \<in> set parsed"
proof -
  from assms(2) obtain i where i: "i < length col" "col ! i = c"
    by (auto simp: in_set_conv_nth)
  from to_datetime_series_rel [OF assms(1)]
  have len: "length col = length parsed"
    and rel: "case col ! i of None \<Rightarrow> parsed ! i = None
              | Some s \<Rightarrow> (\<exists>t. to_datetime s = Inr t \<and> parsed ! i = Some t)"
    using i by (auto simp: list_all2_conv_all_nth)
  have "parsed ! i \<in> set parsed"
    using i len by simp
  then show ?thesis
    using rel i assms(3) by (cases c) (auto split: option.splits)
qed

lemma cell_of_parsed:
  assumes "to_datetime_series col = Inr parsed" and "Some t \<in> set parsed"
  shows "\<exists>s. Some s \<in> set col \<and> to_datetime s = Inr t"
proof -
  from assms(2) obtain i where i: "i < length parsed" "parsed ! i = Some t"
    by (auto simp: in_set_conv_nth)
  from to_datetime_series_rel [OF assms(1)]
  have len: "length col = length parsed"
    and rel: "case col ! i of None \<Rightarrow> parsed ! i = None
              | Some s \<Rightarrow> (\<exists>t. to_datetime s = Inr t \<and> parsed ! i = Some t)"
    using i by (auto simp: list_all2_conv_all_nth)
  from rel i(2) obtain s where s: "col ! i = Some s" "to_datetime s = Inr t"
    by (auto split: option.splits)
  have "col ! i \<in> set col"
    using i len by simp
  then have "Some s \<in> set col"
    using s by simp
  then show ?thesis
    using s by blast
qed

lemma date_id_valid:
  assumes "valid_date (timestamp.year ts) (timestamp.month ts) (timestamp.day ts)"
  shows "dim_date_row.date_id (date_row ts)
         = int (timestamp.year ts * 10000 + timestamp.month ts * 100 + timestamp.day ts)"
  using valid_date_bounds [OF assms]
  by (simp add: date_row_def int_of_digits_Ymd)

lemma pack_eq:
  fixes n :: nat
  assumes "d < 100" "d' < 100" "n * 100 + d = n' * 100 + d'"
  shows "n = n' \<and> d = d'"
proof -
  have "(n * 100 + d) mod 100 = d" "(n * 100 + d) div 100 = n"
    using assms(1) by simp_all
  moreover have "(n' * 100 + d') mod 100 = d'" "(n' * 100 + d') div 100 = n'"
    using assms(2) by simp_all
  ultimately show ?thesis
    using assms(3) by metis
qed

lemma date_id_inj:
  assumes "valid_date (timestamp.year a) (timestamp.month a) (timestamp.day a)"
    and "valid_date (timestamp.year b) (timestamp.month b) (timestamp.day b)"
    and "dim_date_row.date_id (date_row a) = dim_date_row.date_id (date_row b)"
  shows "a = b"
proof -
  have "timestamp.year a * 10000 + timestamp.month a * 100 + timestamp.day a
        = timestamp.year b * 10000 + timestamp.month b * 100 + timestamp.day b"
    using assms by (simp add: date_id_valid del: of_nat_add of_nat_mult)
  then have eq: "(timestamp.year a * 100 + timestamp.month a) * 100 + timestamp.day a
        = (timestamp.year b * 100 + timestamp.month b) * 100 + timestamp.day b"
    by simp
  have ba: "timestamp.month a < 100" "timestamp.day a < 100"
    and bb: "timestamp.month b < 100" "timestamp.day b < 100"
    using valid_date_bounds [OF assms(1)] valid_date_bounds [OF assms(2)] by simp_all
  from pack_eq [OF ba(2) bb(2) eq]
  have d: "timestamp.day a = timestamp.day b"
    and n: "timestamp.year a * 100 + timestamp.month a = timestamp.year b * 100 + timestamp.month b"
    by simp_all
  from pack_eq [OF ba(1) bb(1) n] d show ?thesis
    by simp
qed

lemmas date_eval =
  create_dim_date_def to_datetime_def is_digit_def int_of_digits_def digit_val_def
  valid_date_def days_in_month_def is_leap_year_def sort_values_def date_row_def ts_key_def
  zero_pad4_def zero_pad2_def digit_char_def month_abbr_def quarter_of_def str_nat.simps

text \<open>
  Claim C5. When \<^verbatim>\<open>create_dim_date\<close> returns a table, the date of every input row has a
  row in it whose \<open>date_id\<close> is \<open>year * 10000 + month * 100 + day\<close>, an 8-digit number
  computed from the date alone; the row's \<open>order_date\<close> is the text of the raw cell, its
  year and month (between 1 and 12) are those of the date, its month name is the three-letter
  abbreviation of the month, and its quarter is \<open>Q\<close> followed by the ceiling of
  \<open>month / 3\<close>. Different dates get different \<open>date_id\<close>s.
\<close>

theorem create_dim_date_derives_fields:
  assumes "create_dim_date df = Inr dd" and "r \<in> set df"
  shows "distinct (map dim_date_row.date_id dd)
    \<and> (\<exists>s ts. raw_transaction.order_date r = Some s \<and> to_datetime s = Inr ts
          \<and> date_row ts \<in> set dd
          \<and> dim_date_row.order_date (date_row ts) = s
          \<and> dim_date_row.date_id (date_row ts)
              = int (timestamp.year ts * 10000 + timestamp.month ts * 100 + timestamp.day ts)
          \<and> 10000000 \<le> dim_date_row.date_id (date_row ts)
          \<and> dim_date_row.date_id (date_row ts) \<le> 99999999
          \<and> dim_date_row.year (date_row ts) = int (timestamp.year ts)
          \<and> dim_date_row.month (date_row ts) = int (timestamp.month ts)
          \<and> 1 \<le> timestamp.month ts \<and> timestamp.month ts \<le> 12
          \<and> dim_date_row.month_name (date_row ts)
              = [''Jan'', ''Feb'', ''Mar'', ''Apr'', ''May'', ''Jun'',
                 ''Jul'', ''Aug'', ''Sep'', ''Oct'', ''Nov'', ''Dec''] ! (timestamp.month ts - 1)
          \<and> dim_date_row.quarter (date_row ts)
              = ''Q'' @ str_nat (nat \<lceil>real (timestamp.month ts) / 3\<rceil>))"
proof -
  from assms(1) obtain parsed
    where p: "to_datetime_series (map raw_transaction.order_date df) = Inr parsed"
      and n: "None \<notin> set parsed"
      and dd: "dd = map date_row (sort_key ts_key (dropna (unique parsed)))"
    by (rule create_dim_date_Inr)
  have valid: "valid_date (timestamp.year t) (timestamp.month t) (timestamp.day t)"
    if "Some t \<in> set parsed" for t
    using cell_of_parsed [OF p that] to_datetime_valid by blast
  have tset: "set (sort_key ts_key (dropna (unique parsed))) = {t. Some t \<in> set parsed}"
    by (simp add: set_dropna set_unique)
  have "distinct (sort_key ts_key (dropna (unique parsed)))"
    by (simp add: distinct_dropna distinct_unique)
  moreover have "inj_on (\<lambda>t. dim_date_row.date_id (date_row t))
                   (set (sort_key ts_key (dropna (unique parsed))))"
    unfolding tset by (rule inj_onI) (auto intro: date_id_inj valid)
  ultimately have dist: "distinct (map dim_date_row.date_id dd)"
    unfolding dd by (simp add: distinct_map comp_def)
  have "raw_transaction.order_date r \<in> set (map raw_transaction.order_date df)"
    using assms(2) by simp
  from parsed_of_cell [OF p this n] obtain s ts
    where s: "raw_transaction.order_date r = Some s" "to_datetime s = Inr ts"
      and ts: "Some ts \<in> set parsed"
    by blast
  have v: "valid_date (timestamp.year ts) (timestamp.month ts) (timestamp.day ts)"
    using ts by (rule valid)
  note b = valid_date_bounds [OF v]
  have mem: "date_row ts \<in> set dd"
    unfolding dd using ts tset by auto
  have od: "dim_date_row.order_date (date_row ts) = s"
    using to_datetime_roundtrip [OF s(2)] by (simp add: date_row_def)
  have id: "dim_date_row.date_id (date_row ts)
        = int (timestamp.year ts * 10000 + timestamp.month ts * 100 + timestamp.day ts)"
    using v by (rule date_id_valid)
  have rng: "10000000 \<le> dim_date_row.date_id (date_row ts)"
    "dim_date_row.date_id (date_row ts) \<le> 99999999"
    unfolding id using b by simp_all
  have q: "dim_date_row.quarter (date_row ts)
        = ''Q'' @ str_nat (nat \<lceil>real (timestamp.month ts) / 3\<rceil>)"
    using b by (simp add: date_row_def quarter_of_ceiling)
  have rest: "dim_date_row.year (date_row ts) = int (timestamp.year ts)"
    "dim_date_row.month (date_row ts) = int (timestamp.month ts)"
    "dim_date_row.month_name (date_row ts)
       = [''Jan'', ''Feb'', ''Mar'', ''Apr'', ''May'', ''Jun'',
          ''Jul'', ''Aug'', ''Sep'', ''Oct'', ''Nov'', ''Dec''] ! (timestamp.month ts - 1)"
    by (simp_all add: date_row_def month_abbr_def)
  show ?thesis
    using dist s mem od id rng q rest b by blast
qed

theorem create_dim_date_derives_fields_witness:
  "create_dim_date [example_row]
     = Inr [\<lparr>dim_date_row.date_id = 20240307, dim_date_row.order_date = ''2024-03-07'',
             dim_date_row.year = 2024, dim_date_row.month = 3,
             dim_date_row.month_name = ''Mar'', dim_date_row.quarter = ''Q1''\<rparr>]
   \<and> example_row \<in> set [example_row]
   \<and> (\<exists>s ts. raw_transaction.order_date example_row = Some s \<and> to_datetime s = Inr ts
         \<and> dim_date_row.date_id (date_row ts)
             = int (timestamp.year ts * 10000 + timestamp.month ts * 100 + timestamp.day ts))"
proof -
  have h: "create_dim_date [example_row]
     = Inr [\<lparr>dim_date_row.date_id = 20240307, dim_date_row.order_date = ''2024-03-07'',
             dim_date_row.year = 2024, dim_date_row.month = 3,
             dim_date_row.month_name = ''Mar'', dim_date_row.quarter = ''Q1''\<rparr>]"
    by (simp add: example_row_def date_eval)
  have m: "example_row \<in> set [example_row]"
    by simp
  from create_dim_date_derives_fields [OF h m] obtain s ts
    where "raw_transaction.order_date example_row = Some s" and "to_datetime s = Inr ts"
      and "dim_date_row.date_id (date_row ts)
             = int (timestamp.year ts * 10000 + timestamp.month ts * 100 + timestamp.day ts)"
    by (elim conjE exE)
  then show ?thesis
    using h m by (intro conjI exI)
qed

subsection \<open>The product dimension\<close>

lemmas transform_eval =
  transform_to_star_schema_def assemble_fact_sales_def build_product_map_def product_key_df_def
  merge_left_def build_dim_product_def sorted_product_pairs_def product_pairs_def na_last_def
  dimension_map_def dict_def series_map_def astype_int_def build_dimension_def

lemma astype_int_Inr:
  "astype_int col = Inr ids \<Longrightarrow> col = map Some ids"
  by (auto simp: astype_int_def map_Some_dropna split: if_splits)

text \<open>
  Claim C6. The product dimension is built from the distinct (product_name, category) pairs:
  the sorted pair list holds every pair of the input exactly once, ordered by category and
  then product name (a missing value last), and the product ids are \<open>1, ..., N\<close> over
  that list, \<open>N\<close> the number of distinct pairs; the names and category ids of the rows
  are those of the sorted pairs. The last conjunct is the spec's example: Chair under
  Furniture twice and under Electronics once gives two pairs, Electronics first.
\<close>

theorem product_dimension_composite_dedup:
  "set (sorted_product_pairs pairs) = set pairs
   \<and> distinct (sorted_product_pairs pairs)
   \<and> sorted (map (\<lambda>(n, c). (na_last c, na_last n)) (sorted_product_pairs pairs))
   \<and> (build_dim_product pairs category_map = Inr dp \<longrightarrow>
        length dp = card (set pairs)
        \<and> map dim_product_row.product_id dp = map int [1..<card (set pairs) + 1]
        \<and> map dim_product_row.product_name dp = map fst (sorted_product_pairs pairs)
        \<and> map (\<lambda>p. Some (dim_product_row.category_id p)) dp
            = series_map category_map (map snd (sorted_product_pairs pairs)))
   \<and> sorted_product_pairs
        [(Some ''Chair'', Some ''Furniture''), (Some ''Chair'', Some ''Furniture''),
         (Some ''Chair'', Some ''Electronics'')]
       = [(Some ''Chair'', Some ''Electronics''), (Some ''Chair'', Some ''Furniture'')]"
proof -
  let ?ps = "sorted_product_pairs pairs"
  have ex: "sorted_product_pairs
        [(Some ''Chair'', Some ''Furniture''), (Some ''Chair'', Some ''Furniture''),
         (Some ''Chair'', Some ''Electronics'')]
       = [(Some ''Chair'', Some ''Electronics''), (Some ''Chair'', Some ''Furniture'')]"
    by (simp add: sorted_product_pairs_def na_last_def)
  have a: "set ?ps = set pairs"
    by (simp add: sorted_product_pairs_def set_unique)
  have b: "distinct ?ps"
    by (simp add: sorted_product_pairs_def distinct_unique)
  have c: "sorted (map (\<lambda>(n, c). (na_last c, na_last n)) ?ps)"
    unfolding sorted_product_pairs_def by (rule sorted_sort_key)
  have len: "length ?ps = card (set pairs)"
    by (simp add: sorted_product_pairs_def length_unique)
  have d: "length dp = card (set pairs)
        \<and> map dim_product_row.product_id dp = map int [1..<card (set pairs) + 1]
        \<and> map dim_product_row.product_name dp = map fst ?ps
        \<and> map (\<lambda>p. Some (dim_product_row.category_id p)) dp
            = series_map category_map (map snd ?ps)"
    if "build_dim_product pairs category_map = Inr dp"
  proof -
    from that obtain cids
      where cids: "astype_int (series_map category_map (map snd ?ps)) = Inr cids"
        and dp: "dp = map (\<lambda>(pid, (n, c), cid).
                        \<lparr>dim_product_row.product_id = pid, dim_product_row.product_name = n,
                         dim_product_row.category_id = cid\<rparr>)
                      (zip (map int [1..<length ?ps + 1]) (zip ?ps cids))"
      unfolding build_dim_product_def Let_def
      by (cases "astype_int (series_map category_map (map snd ?ps))") simp_all
    have sm: "series_map category_map (map snd ?ps) = map Some cids"
      using cids by (rule astype_int_Inr)
    then have "length (series_map category_map (map snd ?ps)) = length cids"
      by simp
    then have lc: "length cids = length ?ps"
      by (simp add: series_map_def)
    have li: "length (map int [1..<length ?ps + 1]) = length ?ps"
      by (simp del: upt_Suc)
    let ?z = "zip (map int [1..<length ?ps + 1]) (zip ?ps cids)"
    have z1: "map fst ?z = map int [1..<length ?ps + 1]"
      by (rule map_fst_zip) (simp add: lc del: upt_Suc)
    have z2: "map snd ?z = zip ?ps cids"
      by (rule map_snd_zip) (simp add: lc del: upt_Suc)
    have "map dim_product_row.product_id dp = map fst ?z"
      unfolding dp by (simp add: case_prod_beta comp_def del: upt_Suc)
    then have ids: "map dim_product_row.product_id dp = map int [1..<length ?ps + 1]"
      using z1 by simp
    have "map dim_product_row.product_name dp = map fst (map fst (map snd ?z))"
      unfolding dp by (simp add: case_prod_beta comp_def del: upt_Suc)
    then have names: "map dim_product_row.product_name dp = map fst ?ps"
      unfolding z2 by (simp add: lc map_fst_zip)
    have "map dim_product_row.category_id dp = map snd (map snd ?z)"
      unfolding dp by (simp add: case_prod_beta comp_def del: upt_Suc)
    then have "map dim_product_row.category_id dp = cids"
      unfolding z2 by (simp add: lc map_snd_zip)
    then have "map Some (map dim_product_row.category_id dp) = map Some cids"
      by (rule arg_cong)
    then have "map (\<lambda>p. Some (dim_product_row.category_id p)) dp = map Some cids"
      by (simp add: comp_def)
    then have cats: "map (\<lambda>p. Some (dim_product_row.category_id p)) dp
            = series_map category_map (map snd ?ps)"
      using sm by simp
    have "length (map dim_product_row.product_name dp) = length (map fst ?ps)"
      using names by (rule arg_cong)
    then have "length dp = length ?ps"
      by simp
    then show ?thesis
      using ids names cats len by simp
  qed
  show ?thesis
    using a b c d ex by blast
qed

theorem product_dimension_composite_dedup_witness:
  "build_dim_product
     [(Some ''Chair'', Some ''Furniture''), (Some ''Chair'', Some ''Furniture''),
      (Some ''Chair'', Some ''Electronics'')]
     (dimension_map (build_dimension [Some ''Furniture'', Some ''Furniture'', Some ''Electronics'']
        ''category_id'' ''category_name''))
   = Inr [\<lparr>dim_product_row.product_id = 1, dim_product_row.product_name = Some ''Chair'',
            dim_product_row.category_id = 1\<rparr>,
          \<lparr>dim_product_row.product_id = 2, dim_product_row.product_name = Some ''Chair'',
            dim_product_row.category_id = 2\<rparr>]
   \<and> card (set [(Some ''Chair'', Some ''Furniture''), (Some ''Chair'', Some ''Furniture''),
                  (Some ''Chair'', Some ''Electronics'')]) = 2"
proof -
  let ?pairs = "[(Some ''Chair'', Some ''Furniture''), (Some ''Chair'', Some ''Furniture''),
                 (Some ''Chair'', Some ''Electronics'')]"
  let ?cm = "dimension_map (build_dimension
               [Some ''Furniture'', Some ''Furniture'', Some ''Electronics'']
               ''category_id'' ''category_name'')"
  let ?dp = "[\<lparr>dim_product_row.product_id = 1, dim_product_row.product_name = Some ''Chair'',
               dim_product_row.category_id = 1\<rparr>,
              \<lparr>dim_product_row.product_id = 2, dim_product_row.product_name = Some ''Chair'',
               dim_product_row.category_id = 2\<rparr>]"
  have h: "build_dim_product ?pairs ?cm = Inr ?dp"
    by (simp add: transform_eval upt_rec)
  from product_dimension_composite_dedup [of ?pairs ?cm ?dp] h
  have "length ?dp = card (set ?pairs)"
    by (elim conjE impE)
  then show ?thesis
    using h by simp
qed

subsection \<open>The fact assembler and the transform\<close>

lemma ran_dict: "dict kvs k = Some v \<Longrightarrow> v \<in> snd ` set kvs"
  unfolding dict_def by (drule map_of_SomeD) force

lemma series_map_astype_ids:
  assumes "astype_int (series_map m col) = Inr ids"
  shows "length ids = length col"
    and "i < length col \<Longrightarrow> \<exists>k. col ! i = Some k \<and> m k = Some (ids ! i)"
proof -
  have eq: "series_map m col = map Some ids"
    using assms by (rule astype_int_Inr)
  then have "length (series_map m col) = length (map Some ids)"
    by (rule arg_cong)
  then show len: "length ids = length col"
    by (simp add: series_map_def)
  assume i: "i < length col"
  have "series_map m col ! i = Some (ids ! i)"
    using i len by (simp add: eq)
  then show "\<exists>k. col ! i = Some k \<and> m k = Some (ids ! i)"
    using i by (simp add: series_map_def split: option.splits)
qed

lemma series_map_astype_fail:
  assumes "c \<in> set col" and "\<not> (\<exists>k v. c = Some k \<and> m k = Some v)"
  shows "astype_int (series_map m col) = Inl ValueError"
proof -
  have "(case c of None \<Rightarrow> None | Some k \<Rightarrow> m k) = None"
    using assms(2) by (cases c) auto
  then have "None \<in> set (series_map m col)"
    using assms(1) by (force simp: series_map_def image_iff)
  then show ?thesis
    by (simp add: astype_int_def)
qed

lemma lookup_all_Inr:
  "lookup_all pm ks = Inr vs \<Longrightarrow>
   length vs = length ks \<and> (\<forall>i < length ks. pm (ks ! i) = Some (vs ! i))"
proof (induction ks arbitrary: vs)
  case Nil
  then show ?case by simp
next
  case (Cons k ks)
  from Cons.prems obtain v vs' where v: "pm k = Some v" and r: "lookup_all pm ks = Inr vs'"
    and vs: "vs = v # vs'"
    by (auto split: option.splits sum.splits)
  from Cons.IH [OF r] show ?case
    using v vs by (auto simp: nth_Cons split: nat.splits)
qed

lemma lookup_all_Inl:
  "lookup_all pm ks = Inl k \<Longrightarrow> k \<in> set ks \<and> pm k = None"
  by (induction ks) (auto split: option.splits sum.splits)

lemma lookup_all_fail:
  "k \<in> set ks \<Longrightarrow> pm k = None \<Longrightarrow> \<exists>k'. lookup_all pm ks = Inl k'"
  by (induction ks) (auto split: option.splits sum.splits)

lemma assemble_fact_sales_Inr:
  assumes "assemble_fact_sales df date_map region_map channel_map segment_map product_map = Inr fs"
  shows "length fs = length df"
    and "i < length df \<Longrightarrow>
         fact_sales_row.order_id (fs ! i) = raw_transaction.order_id (df ! i)
         \<and> (\<exists>k. raw_transaction.order_date (df ! i) = Some k
                \<and> date_map k = Some (fact_sales_row.date_id (fs ! i)))
         \<and> (\<exists>k. raw_transaction.region (df ! i) = Some k
                \<and> region_map k = Some (fact_sales_row.region_id (fs ! i)))
         \<and> (\<exists>k. raw_transaction.channel (df ! i) = Some k
                \<and> channel_map k = Some (fact_sales_row.channel_id (fs ! i)))
         \<and> (\<exists>k. raw_transaction.customer_segment (df ! i) = Some k
                \<and> segment_map k = Some (fact_sales_row.segment_id (fs ! i)))
         \<and> product_map (raw_transaction.product_name (df ! i), raw_transaction.category (df ! i))
             = Some (fact_sales_row.product_id (fs ! i))
         \<and> fact_sales_row.units_sold (fs ! i) = raw_transaction.units_sold (df ! i)
         \<and> fact_sales_row.unit_price (fs ! i) = raw_transaction.unit_price (df ! i)
         \<and> fact_sales_row.discount_pct (fs ! i) = raw_transaction.discount_pct (df ! i)
         \<and> fact_sales_row.gross_revenue (fs ! i) = raw_transaction.gross_revenue (df ! i)
         \<and> fact_sales_row.net_revenue (fs ! i) = raw_transaction.net_revenue (df ! i)
         \<and> fact_sales_row.cost (fs ! i) = raw_transaction.cost (df ! i)
         \<and> fact_sales_row.profit (fs ! i) = raw_transaction.profit (df ! i)"
proof -
  from assms obtain ds gs cs ss ps
    where d: "astype_int (series_map date_map (map raw_transaction.order_date df)) = Inr ds"
      and g: "astype_int (series_map region_map (map raw_transaction.region df)) = Inr gs"
      and c: "astype_int (series_map channel_map (map raw_transaction.channel df)) = Inr cs"
      and s: "astype_int (series_map segment_map (map raw_transaction.customer_segment df)) = Inr ss"
      and p: "lookup_all product_map (product_pairs df) = Inr ps"
      and fs: "fs = map (\<lambda>(r, d, g, c, s, p).
                     \<lparr>fact_sales_row.order_id = raw_transaction.order_id r,
                      fact_sales_row.date_id = d,
                      fact_sales_row.region_id = g,
                      fact_sales_row.channel_id = c,
                      fact_sales_row.segment_id = s,
                      fact_sales_row.product_id = p,
                      fact_sales_row.units_sold = raw_transaction.units_sold r,
                      fact_sales_row.unit_price = raw_transaction.unit_price r,
                      fact_sales_row.discount_pct = raw_transaction.discount_pct r,
                      fact_sales_row.gross_revenue = raw_transaction.gross_revenue r,
                      fact_sales_row.net_revenue = raw_transaction.net_revenue r,
                      fact_sales_row.cost = raw_transaction.cost r,
                      fact_sales_row.profit = raw_transaction.profit r\<rparr>)
                   (zip df (zip ds (zip gs (zip cs (zip ss ps)))))"
    unfolding assemble_fact_sales_def
    by (simp split: sum.splits)
  note dl = series_map_astype_ids [OF d] and gl = series_map_astype_ids [OF g]
    and cl = series_map_astype_ids [OF c] and sl = series_map_astype_ids [OF s]
    and pl = lookup_all_Inr [OF p]
  have lens: "length ds = length df" "length gs = length df" "length cs = length df"
    "length ss = length df" "length ps = length df"
    using dl(1) gl(1) cl(1) sl(1) pl by (simp_all add: product_pairs_def)
  show "length fs = length df"
    unfolding fs by (simp add: lens)
  assume i: "i < length df"
  have nth: "fs ! i =
       \<lparr>fact_sales_row.order_id = raw_transaction.order_id (df ! i),
        fact_sales_row.date_id = ds ! i,
        fact_sales_row.region_id = gs ! i,
        fact_sales_row.channel_id = cs ! i,
        fact_sales_row.segment_id = ss ! i,
        fact_sales_row.product_id = ps ! i,
        fact_sales_row.units_sold = raw_transaction.units_sold (df ! i),
        fact_sales_row.unit_price = raw_transaction.unit_price (df ! i),
        fact_sales_row.discount_pct = raw_transaction.discount_pct (df ! i),
        fact_sales_row.gross_revenue = raw_transaction.gross_revenue (df ! i),
        fact_sales_row.net_revenue = raw_transaction.net_revenue (df ! i),
        fact_sales_row.cost = raw_transaction.cost (df ! i),
        fact_sales_row.profit = raw_transaction.profit (df ! i)\<rparr>"
    unfolding fs using i lens by simp
  have "product_map (product_pairs df ! i) = Some (ps ! i)"
    using pl i by (simp add: product_pairs_def)
  then have pp: "product_map (raw_transaction.product_name (df ! i), raw_transaction.category (df ! i))
             = Some (ps ! i)"
    using i by (simp add: product_pairs_def)
  show "fact_sales_row.order_id (fs ! i) = raw_transaction.order_id (df ! i)
         \<and> (\<exists>k. raw_transaction.order_date (df ! i) = Some k
                \<and> date_map k = Some (fact_sales_row.date_id (fs ! i)))
         \<and> (\<exists>k. raw_transaction.region (df ! i) = Some k
                \<and> region_map k = Some (fact_sales_row.region_id (fs ! i)))
         \<and> (\<exists>k. raw_transaction.channel (df ! i) = Some k
                \<and> channel_map k = Some (fact_sales_row.channel_id (fs ! i)))
         \<and> (\<exists>k. raw_transaction.customer_segment (df ! i) = Some k
                \<and> segment_map k = Some (fact_sales_row.segment_id (fs ! i)))
         \<and> product_map (raw_transaction.product_name (df ! i), raw_transaction.category (df ! i))
             = Some (fact_sales_row.product_id (fs ! i))
         \<and> fact_sales_row.units_sold (fs ! i) = raw_transaction.units_sold (df ! i)
         \<and> fact_sales_row.unit_price (fs ! i) = raw_transaction.unit_price (df ! i)
         \<and> fact_sales_row.discount_pct (fs ! i) = raw_transaction.discount_pct (df ! i)
         \<and> fact_sales_row.gross_revenue (fs ! i) = raw_transaction.gross_revenue (df ! i)
         \<and> fact_sales_row.net_revenue (fs ! i) = raw_transaction.net_revenue (df ! i)
         \<and> fact_sales_row.cost (fs ! i) = raw_transaction.cost (df ! i)
         \<and> fact_sales_row.profit (fs ! i) = raw_transaction.profit (df ! i)"
    unfolding nth using dl(2) [of i] gl(2) [of i] cl(2) [of i] sl(2) [of i] pp i
    by simp
qed

lemma dimension_map_Some:
  "dimension_map dm k = Some v \<Longrightarrow> (v, k) \<in> set (rows dm)"
proof -
  assume "dimension_map dm k = Some v"
  then have "(k, v) \<in> set (zip (map snd (rows dm)) (map fst (rows dm)))"
    unfolding dimension_map_def dict_def by (drule_tac map_of_SomeD) simp
  then obtain j where "j < length (rows dm)" "k = snd (rows dm ! j)" "v = fst (rows dm ! j)"
    by (auto simp: set_zip)
  then show ?thesis
    by (metis nth_mem prod.collapse)
qed

lemma merge_left_Some:
  assumes "(l, Some m) \<in> set (merge_left on ls rs)"
  shows "l \<in> set ls \<and> m \<in> set rs \<and> on l m"
proof -
  from assms obtain l' where l': "l' \<in> set ls"
    and mem: "(l, Some m) \<in> set (case filter (on l') rs of
                          [] \<Rightarrow> [(l', None)]
                        | ms \<Rightarrow> map (\<lambda>m. (l', Some m)) ms)"
    unfolding merge_left_def by auto
  show ?thesis
  proof (cases "filter (on l') rs")
    case Nil
    then show ?thesis using mem by simp
  next
    case (Cons a as)
    then have "l = l'" and "m \<in> set (filter (on l') rs)"
      using mem by auto
    then show ?thesis
      using l' by simp
  qed
qed

lemma merge_left_fst:
  assumes "(l, m) \<in> set (merge_left on ls rs)"
  shows "l \<in> set ls"
proof -
  from assms obtain l' where l': "l' \<in> set ls"
    and mem: "(l, m) \<in> set (case filter (on l') rs of
                          [] \<Rightarrow> [(l', None)]
                        | ms \<Rightarrow> map (\<lambda>m. (l', Some m)) ms)"
    unfolding merge_left_def by auto
  have "l = l'"
    using mem by (cases "filter (on l') rs") auto
  then show ?thesis
    using l' by simp
qed

lemma product_key_df_Some:
  assumes "(k, Some pid) \<in> set (product_key_df pairs dp dc)"
  shows "pid \<in> dim_product_row.product_id ` set dp"
proof -
  from assms obtain m
    where m: "(k, m) \<in> set (merge_left
               (\<lambda>(n, c) (p, dc). dim_product_row.product_name p = n \<and> map_option snd dc = c)
               (unique pairs)
               (merge_left (\<lambda>p dc. dim_product_row.category_id p = fst dc) dp (rows dc)))"
      and pid: "Some pid = map_option (\<lambda>(p, dc). dim_product_row.product_id p) m"
    unfolding product_key_df_def by auto
  from pid obtain p c where pc: "m = Some (p, c)" and p: "dim_product_row.product_id p = pid"
    by (cases m) auto
  from m pc have "(p, c) \<in> set (merge_left (\<lambda>p dc. dim_product_row.category_id p = fst dc) dp (rows dc))"
    using merge_left_Some by fastforce
  then have "p \<in> set dp"
    by (rule merge_left_fst)
  then show ?thesis
    using p by blast
qed

lemma product_map_loop_Some:
  "product_map_loop recs pm0 = Inr pm \<Longrightarrow> pm k = Some v \<Longrightarrow>
   pm0 k = Some v \<or> (k, Some v) \<in> set recs"
proof (induction recs pm0 rule: product_map_loop.induct)
  case (1 pm0)
  then show ?case by simp
next
  case (2 k' recs pm0)
  then show ?case by simp
next
  case (3 k' pid recs pm0)
  have "product_map_loop recs (pm0(k' \<mapsto> pid)) = Inr pm"
    using "3.prems"(1) by simp
  from "3.IH" [OF this "3.prems"(2)] show ?case
    by (auto split: if_splits)
qed

lemma build_product_map_Some:
  assumes "build_product_map pairs dp dc = Inr pm" and "pm k = Some v"
  shows "v \<in> dim_product_row.product_id ` set dp"
  using product_map_loop_Some [OF assms [unfolded build_product_map_def]]
    product_key_df_Some by fastforce

lemma date_map_Some:
  assumes "dict (zip (map dim_date_row.order_date dd) (map dim_date_row.date_id dd)) k = Some v"
  shows "v \<in> dim_date_row.date_id ` set dd"
proof -
  have "(k, v) \<in> set (zip (map dim_date_row.order_date dd) (map dim_date_row.date_id dd))"
    using assms unfolding dict_def by (drule_tac map_of_SomeD) simp
  then have "v \<in> set (map dim_date_row.date_id dd)"
    by (rule set_zip_rightD)
  then show ?thesis
    by simp
qed

lemma transform_Inr:
  assumes "transform_to_star_schema df = Inr w"
  shows "create_dim_date df = Inr (dim_date w)"
    and "dim_region w = build_dimension (map raw_transaction.region df) ''region_id'' ''region_name''"
    and "dim_channel w = build_dimension (map raw_transaction.channel df) ''channel_id'' ''channel_name''"
    and "dim_segment w = build_dimension (map raw_transaction.customer_segment df)
                           ''segment_id'' ''segment_name''"
    and "dim_category w = build_dimension (map raw_transaction.category df)
                            ''category_id'' ''category_name''"
    and "build_dim_product (product_pairs df) (dimension_map (dim_category w)) = Inr (dim_product w)"
    and "\<exists>pm. build_product_map (product_pairs df) (dim_product w) (dim_category w) = Inr pm
           \<and> assemble_fact_sales df
                (dict (zip (map dim_date_row.order_date (dim_date w))
                           (map dim_date_row.date_id (dim_date w))))
                (dimension_map (dim_region w)) (dimension_map (dim_channel w))
                (dimension_map (dim_segment w)) pm = Inr (fact_sales w)"
  using assms unfolding transform_to_star_schema_def Let_def
  by (auto split: sum.splits)

lemma transform_example: "transform_to_star_schema example_frame = Inr example_warehouse"
  by (simp add: example_frame_def example_row_def example_warehouse_def
        transform_eval date_eval upt_rec Let_def)

text \<open>
  Claim C8. When \<^verbatim>\<open>transform_to_star_schema\<close> returns its tables, every fact row's
  \<open>date_id\<close>, \<open>region_id\<close>, \<open>channel_id\<close>, \<open>segment_id\<close> and \<open>product_id\<close> is the
  key of a row of the date, region, channel, segment and product dimension returned with it.
\<close>

theorem fact_foreign_keys_closed:
  assumes "transform_to_star_schema df = Inr w" and "f \<in> set (fact_sales w)"
  shows "fact_sales_row.date_id f \<in> dim_date_row.date_id ` set (dim_date w)
       \<and> fact_sales_row.region_id f \<in> fst ` set (rows (dim_region w))
       \<and> fact_sales_row.channel_id f \<in> fst ` set (rows (dim_channel w))
       \<and> fact_sales_row.segment_id f \<in> fst ` set (rows (dim_segment w))
       \<and> fact_sales_row.product_id f \<in> dim_product_row.product_id ` set (dim_product w)"
proof -
  from transform_Inr(7) [OF assms(1)] obtain pm
    where pm: "build_product_map (product_pairs df) (dim_product w) (dim_category w) = Inr pm"
      and fs: "assemble_fact_sales df
                (dict (zip (map dim_date_row.order_date (dim_date w))
                           (map dim_date_row.date_id (dim_date w))))
                (dimension_map (dim_region w)) (dimension_map (dim_channel w))
                (dimension_map (dim_segment w)) pm = Inr (fact_sales w)"
    by blast
  from assms(2) obtain i where i: "i < length (fact_sales w)" and f: "f = fact_sales w ! i"
    by (auto simp: in_set_conv_nth)
  have "i < length df"
    using i assemble_fact_sales_Inr(1) [OF fs] by simp
  note row = assemble_fact_sales_Inr(2) [OF fs this, folded f]
  have d: "fact_sales_row.date_id f \<in> dim_date_row.date_id ` set (dim_date w)"
    using row date_map_Some by blast
  have g: "fact_sales_row.region_id f \<in> fst ` set (rows (dim_region w))"
    using row dimension_map_Some by (metis fst_conv image_eqI)
  have c: "fact_sales_row.channel_id f \<in> fst ` set (rows (dim_channel w))"
    using row dimension_map_Some by (metis fst_conv image_eqI)
  have s: "fact_sales_row.segment_id f \<in> fst ` set (rows (dim_segment w))"
    using row dimension_map_Some by (metis fst_conv image_eqI)
  have p: "fact_sales_row.product_id f \<in> dim_product_row.product_id ` set (dim_product w)"
    using row build_product_map_Some [OF pm] by blast
  show ?thesis
    using d g c s p by simp
qed

theorem fact_foreign_keys_closed_witness:
  "transform_to_star_schema example_frame = Inr example_warehouse
   \<and> hd (fact_sales example_warehouse) \<in> set (fact_sales example_warehouse)
   \<and> fact_sales_row.region_id (hd (fact_sales example_warehouse))
       \<in> fst ` set (rows (dim_region example_warehouse))
   \<and> fact_sales_row.product_id (hd (fact_sales example_warehouse))
       \<in> dim_product_row.product_id ` set (dim_product example_warehouse)"
proof -
  have m: "hd (fact_sales example_warehouse) \<in> set (fact_sales example_warehouse)"
    by (simp add: example_warehouse_def)
  from fact_foreign_keys_closed [OF transform_example m] show ?thesis
    using transform_example m by simp
qed

lemma astype_int_cases:
  "astype_int col = Inl ValueError \<or> (\<exists>ids. astype_int col = Inr ids)"
  by (simp add: astype_int_def)

lemma unresolved_astype_fail:
  assumes "r \<in> set df" and "\<not> resolved m (col r)"
  shows "astype_int (series_map m (map col df)) = Inl ValueError"
proof (rule series_map_astype_fail)
  show "col r \<in> set (map col df)"
    using assms(1) by simp
  show "\<not> (\<exists>k v. col r = Some k \<and> m k = Some v)"
    using assms(2) by (auto simp: resolved_def)
qed

text \<open>
  Claim C1, as the spec states it, fails on the code: there is no \<^verbatim>\<open>ResolutionError\<close>.
  A region that the region lookup does not hold and a channel that the channel lookup does not
  hold end in the same exception, the \<open>ValueError\<close> of \<^verbatim>\<open>astype(int)\<close>, which names
  neither the value nor the column; so does the whole transform on a row without a region.
\<close>

theorem unresolved_key_error_counterexample:
  "assemble_fact_sales [example_row] [''2024-03-07'' \<mapsto> 20240307] Map.empty
     [''Online'' \<mapsto> 1] [''Consumer'' \<mapsto> 1] [(Some ''Desk'', Some ''Furniture'') \<mapsto> 1]
     = Inl ValueError
   \<and> assemble_fact_sales [example_row] [''2024-03-07'' \<mapsto> 20240307] [''West'' \<mapsto> 1]
     Map.empty [''Consumer'' \<mapsto> 1] [(Some ''Desk'', Some ''Furniture'') \<mapsto> 1]
     = Inl ValueError
   \<and> transform_to_star_schema [example_row\<lparr>raw_transaction.region := None\<rparr>] = Inl ValueError"
  by (simp add: example_row_def transform_eval date_eval upt_rec Let_def)

text \<open>
  Claim C1, amended. For every raw row of the frame: when its order date, region, channel or
  customer segment is not resolved by the corresponding lookup, the fact assembler raises the
  \<open>ValueError\<close> of the integer cast; when its (product_name, category) pair is not a key
  of the product lookup, the assembler raises that \<open>ValueError\<close> or a \<open>KeyError\<close>
  carrying an unresolved pair of the frame. In both cases no fact table is returned, so no
  fact row with a null or default key is emitted.
\<close>

theorem unresolved_key_fails:
  assumes "r \<in> set df"
  shows "(\<not> resolved date_map (raw_transaction.order_date r)
          \<or> \<not> resolved region_map (raw_transaction.region r)
          \<or> \<not> resolved channel_map (raw_transaction.channel r)
          \<or> \<not> resolved segment_map (raw_transaction.customer_segment r)
          \<longrightarrow> assemble_fact_sales df date_map region_map channel_map segment_map product_map
              = Inl ValueError)
       \<and> (product_map (raw_transaction.product_name r, raw_transaction.category r) = None
          \<longrightarrow> assemble_fact_sales df date_map region_map channel_map segment_map product_map
                = Inl ValueError
              \<or> (\<exists>k \<in> set (product_pairs df). product_map k = None
                    \<and> assemble_fact_sales df date_map region_map channel_map segment_map product_map
                        = Inl (KeyError k)))"
proof -
  let ?d = "astype_int (series_map date_map (map raw_transaction.order_date df))"
  let ?g = "astype_int (series_map region_map (map raw_transaction.region df))"
  let ?c = "astype_int (series_map channel_map (map raw_transaction.channel df))"
  let ?s = "astype_int (series_map segment_map (map raw_transaction.customer_segment df))"
  let ?res = "assemble_fact_sales df date_map region_map channel_map segment_map product_map"
  note cs = astype_int_cases [of "series_map date_map (map raw_transaction.order_date df)"]
    astype_int_cases [of "series_map region_map (map raw_transaction.region df)"]
    astype_int_cases [of "series_map channel_map (map raw_transaction.channel df)"]
    astype_int_cases [of "series_map segment_map (map raw_transaction.customer_segment df)"]
  have four: "?res = Inl ValueError"
    if "?d = Inl ValueError \<or> ?g = Inl ValueError \<or> ?c = Inl ValueError \<or> ?s = Inl ValueError"
    using that cs unfolding assemble_fact_sales_def
    by (elim disjE exE) simp_all
  have a: "?res = Inl ValueError"
    if "\<not> resolved date_map (raw_transaction.order_date r)
          \<or> \<not> resolved region_map (raw_transaction.region r)
          \<or> \<not> resolved channel_map (raw_transaction.channel r)
          \<or> \<not> resolved segment_map (raw_transaction.customer_segment r)"
    using that unresolved_astype_fail [OF assms] by (intro four) blast
  have b: "?res = Inl ValueError
           \<or> (\<exists>k \<in> set (product_pairs df). product_map k = None \<and> ?res = Inl (KeyError k))"
    if miss: "product_map (raw_transaction.product_name r, raw_transaction.category r) = None"
  proof (cases "?d = Inl ValueError \<or> ?g = Inl ValueError \<or> ?c = Inl ValueError \<or> ?s = Inl ValueError")
    case True
    then show ?thesis using four by blast
  next
    case False
    then obtain ds gs cs' ss where ok: "?d = Inr ds" "?g = Inr gs" "?c = Inr cs'" "?s = Inr ss"
      using cs by blast
    have "(raw_transaction.product_name r, raw_transaction.category r) \<in> set (product_pairs df)"
      using assms by (force simp: product_pairs_def)
    from lookup_all_fail [of _ _ product_map, OF this miss] obtain k where k: "lookup_all product_map (product_pairs df) = Inl k"
      by blast
    then have "?res = Inl (KeyError k)"
      unfolding assemble_fact_sales_def by (simp add: ok)
    then show ?thesis
      using lookup_all_Inl [OF k] by blast
  qed
  show ?thesis
    using a b by blast
qed

theorem unresolved_key_fails_witness:
  "example_row \<in> set [example_row]
   \<and> \<not> resolved (Map.empty :: string \<rightharpoonup> int) (raw_transaction.region example_row)
   \<and> assemble_fact_sales [example_row] [''2024-03-07'' \<mapsto> 20240307] Map.empty
        [''Online'' \<mapsto> 1] [''Consumer'' \<mapsto> 1] [(Some ''Desk'', Some ''Furniture'') \<mapsto> 1]
       = Inl ValueError
   \<and> assemble_fact_sales [example_row] [''2024-03-07'' \<mapsto> 20240307] [''West'' \<mapsto> 1]
        [''Online'' \<mapsto> 1] [''Consumer'' \<mapsto> 1] Map.empty
       = Inl (KeyError (Some ''Desk'', Some ''Furniture''))"
proof -
  have m: "example_row \<in> set [example_row]"
    by simp
  have nr: "\<not> resolved (Map.empty :: string \<rightharpoonup> int) (raw_transaction.region example_row)"
    by (simp add: resolved_def example_row_def)
  have np: "(Map.empty :: string option \<times> string option \<rightharpoonup> int)
              (raw_transaction.product_name example_row, raw_transaction.category example_row) = None"
    by simp
  have pairs: "product_pairs [example_row] = [(Some ''Desk'', Some ''Furniture'')]"
    by (simp add: product_pairs_def example_row_def)
  have dr: "resolved [''2024-03-07'' \<mapsto> 20240307::int] (raw_transaction.order_date example_row)"
    by (simp add: resolved_def example_row_def)
  from unresolved_key_fails [OF m, of "[''2024-03-07'' \<mapsto> 20240307]" Map.empty
      "[''Online'' \<mapsto> 1]" "[''Consumer'' \<mapsto> 1]" "[(Some ''Desk'', Some ''Furniture'') \<mapsto> 1]"] nr
  have a: "assemble_fact_sales [example_row] [''2024-03-07'' \<mapsto> 20240307] Map.empty
        [''Online'' \<mapsto> 1] [''Consumer'' \<mapsto> 1] [(Some ''Desk'', Some ''Furniture'') \<mapsto> 1]
       = Inl ValueError"
    by blast
  have b: "assemble_fact_sales [example_row] [''2024-03-07'' \<mapsto> 20240307] [''West'' \<mapsto> 1]
        [''Online'' \<mapsto> 1] [''Consumer'' \<mapsto> 1] Map.empty
       = Inl (KeyError (Some ''Desk'', Some ''Furniture''))"
    by (simp add: example_row_def transform_eval)
  show ?thesis
    using m nr a b by blast
qed

subsection \<open>The warehouse loader\<close>

lemma exec_statement_quiet:
  "exec_statement st c = Inr c' \<Longrightarrow> quiet c \<Longrightarrow> quiet c'"
  by (cases st) (auto simp: quiet_def commit_def fact_empty_def split: if_splits)

lemma run_script_quiet:
  "run_script sts c = (e, c') \<Longrightarrow> quiet c \<Longrightarrow> quiet c'"
proof (induction sts arbitrary: c)
  case Nil
  then show ?case by simp
next
  case (Cons st sts)
  show ?case
  proof (cases "exec_statement st c")
    case (Inl err)
    then show ?thesis using Cons.prems by simp
  next
    case (Inr c1)
    then have "run_script sts c1 = (e, c')"
      using Cons.prems(1) by simp
    moreover have "quiet c1"
      using Inr Cons.prems(2) by (rule exec_statement_quiet)
    ultimately show ?thesis
      by (rule Cons.IH)
  qed
qed

lemma executescript_quiet:
  "executescript script c = (e, c') \<Longrightarrow> quiet c \<Longrightarrow> quiet c'"
  unfolding executescript_def
  by (erule run_script_quiet) (simp add: quiet_def commit_def)

lemma drop_sql_connect:
  "executescript drop_sql (connect db)
   = (None, \<lparr>committed = drop_tables db, working = drop_tables db, fk_enforced = True\<rparr>)"
  by (simp add: executescript_def drop_sql_def connect_def commit_def drop_tables_def)

lemma drop_sql_quiet:
  assumes "executescript drop_sql (connect db) = (e, c')"
  shows "quiet c'"
  using assms unfolding drop_sql_connect
  by (auto simp: quiet_def fact_empty_def drop_tables_def)

lemma insert_rows_cases:
  assumes "insert_rows name fr c = (e, c')"
  shows "(e \<noteq> None \<and> c' = rollback c)
       \<or> (e = None \<and> (\<exists>t'. c' = commit (c\<lparr>working := (working c)(name \<mapsto> t')\<rparr>)))"
proof (cases "working c name")
  case None
  then show ?thesis
    using assms by (auto simp: insert_rows_def)
next
  case (Some t)
  show ?thesis
  proof (cases "set (frame_columns fr) \<subseteq> set (tbl_columns t)")
    case False
    then show ?thesis
      using assms Some by (auto simp: insert_rows_def)
  next
    case True
    then show ?thesis
      using assms Some unfolding insert_rows_def Let_def
      by (auto split: if_splits)
  qed
qed

lemma insert_rows_quiet:
  assumes "insert_rows name fr c = (e, c')" and "quiet c"
    and "name \<noteq> ''fact_sales'' \<or> e \<noteq> None"
  shows "quiet c'"
  using insert_rows_cases [OF assms(1)] assms(2,3)
  by (auto simp: quiet_def rollback_def commit_def fact_empty_def)

lemma to_sql_quiet:
  assumes "to_sql name fr c = (e, c')" and "quiet c"
    and "name \<noteq> ''fact_sales'' \<or> e \<noteq> None"
  shows "quiet c'"
proof (cases "working c name")
  case None
  let ?c1 = "commit (c\<lparr>working := (working c)(name \<mapsto>
               \<lparr>tbl_columns = frame_columns fr, tbl_primary_key = [],
                tbl_foreign_keys = [], tbl_rows = []\<rparr>)\<rparr>)"
  have "quiet ?c1"
    using assms(2) by (auto simp: quiet_def commit_def fact_empty_def)
  moreover have "insert_rows name fr ?c1 = (e, c')"
    using assms(1) None by (simp add: to_sql_def)
  ultimately show ?thesis
    using assms(3) insert_rows_quiet by blast
next
  case (Some t)
  then have "insert_rows name fr c = (e, c')"
    using assms(1) by (simp add: to_sql_def)
  then show ?thesis
    using assms(2,3) insert_rows_quiet by blast
qed

lemma run_steps_append:
  "run_steps (xs @ ys) c =
     (case run_steps xs c of (Some e, c') \<Rightarrow> (Some e, c') | (None, c') \<Rightarrow> run_steps ys c')"
  by (induction xs arbitrary: c) (auto split: prod.splits option.splits)

lemma run_steps_quiet:
  assumes "\<And>stp c e c'. stp \<in> set stps \<Longrightarrow> quiet c \<Longrightarrow> stp c = (e, c') \<Longrightarrow> quiet c'"
    and "quiet c" and "run_steps stps c = (e, c')"
  shows "quiet c'"
  using assms
proof (induction stps arbitrary: c)
  case Nil
  then show ?case by simp
next
  case (Cons stp stps)
  obtain e1 c1 where s: "stp c = (e1, c1)"
    by (cases "stp c")
  have q1: "quiet c1"
    using Cons.prems(1) [of stp c e1 c1] Cons.prems(2) s by simp
  show ?case
  proof (cases e1)
    case None
    then have "run_steps stps c1 = (e, c')"
      using Cons.prems(3) s by simp
    with Cons.IH [OF _ q1] Cons.prems(1) show ?thesis
      by (metis list.set_intros(2))
  next
    case (Some err)
    then have "c' = c1"
      using Cons.prems(3) s by simp
    then show ?thesis
      using q1 by simp
  qed
qed

lemmas load_eval =
  load_to_sqlite_def to_sql_def insert_rows_def executescript_def connect_def commit_def
  rollback_def drop_sql_def schema_sql_def cell_def primary_key_ok_def foreign_keys_ok_def
  frame_of_dim_date_def frame_of_dimension_def frame_of_dim_product_def frame_of_fact_sales_def

lemma transform_duplicate: "transform_to_star_schema duplicate_frame = Inr duplicate_warehouse"
  by (simp add: duplicate_frame_def example_row_def duplicate_warehouse_def
        transform_eval date_eval upt_rec Let_def)

lemma load_example:
  "case load_to_sqlite schema_sql example_warehouse db of
     (e, d) \<Rightarrow> e = None
       \<and> map_option tbl_rows (d ''dim_region'')
           = Some [[SqlInt 1, SqlText ''East''], [SqlInt 2, SqlText ''West'']]
       \<and> map_option (length \<circ> tbl_rows) (d ''fact_sales'') = Some 2"
  by (simp add: load_eval example_warehouse_def Let_def)

lemma load_duplicate:
  "case load_to_sqlite schema_sql duplicate_warehouse db of
     (e, d) \<Rightarrow> e = Some IntegrityError
       \<and> map_option tbl_rows (d ''dim_region'') = Some [[SqlInt 1, SqlText ''West'']]
       \<and> map_option tbl_rows (d ''fact_sales'') = Some []"
  by (simp add: load_eval duplicate_warehouse_def Let_def)

text \<open>
  Claim C2, as the spec states it, fails on the code. A first build of \<open>example_frame\<close>
  succeeds and leaves the regions East and West and two fact rows. A rebuild from a raw file
  in which an order id repeats fails at the last insert with \<open>IntegrityError\<close>, and the
  database it leaves is not the prior one: the region table holds the new single region and
  the fact table is empty. The drop script, the schema script and every earlier insert were
  committed on their own.
\<close>

theorem load_not_atomic_counterexample:
  "fst (main example_frame Map.empty) = None
   \<and> map_option tbl_rows (snd (main example_frame Map.empty) ''dim_region'')
       = Some [[SqlInt 1, SqlText ''East''], [SqlInt 2, SqlText ''West'']]
   \<and> map_option (length \<circ> tbl_rows) (snd (main example_frame Map.empty) ''fact_sales'') = Some 2
   \<and> fst (main duplicate_frame (snd (main example_frame Map.empty))) = Some IntegrityError
   \<and> map_option tbl_rows
        (snd (main duplicate_frame (snd (main example_frame Map.empty))) ''dim_region'')
       = Some [[SqlInt 1, SqlText ''West'']]
   \<and> map_option tbl_rows
        (snd (main duplicate_frame (snd (main example_frame Map.empty))) ''fact_sales'')
       = Some []"
  using load_example [of Map.empty]
    load_duplicate [of "snd (load_to_sqlite schema_sql example_warehouse Map.empty)"]
  by (simp add: main_def transform_example transform_duplicate case_prod_beta)

text \<open>
  Claim C2, amended. The load is not one transaction: each script statement and each
  table's bulk insert is committed on its own, and a failure rolls back the failing insert
  only. The fact table is inserted last, into a table the rebuild has just created, so
  whenever \<^verbatim>\<open>load_to_sqlite\<close> fails, with any schema script of pragma, drop and create
  statements, the fact table it leaves is absent or has no row: it never references a
  half-loaded dimension.
\<close>

theorem failed_load_fact_table_empty:
  assumes "load_to_sqlite schema w db = (Some e, db')"
  shows "case db' ''fact_sales'' of None \<Rightarrow> True | Some t \<Rightarrow> tbl_rows t = []"
proof -
  let ?dims = "[executescript schema,
              to_sql ''dim_date'' (frame_of_dim_date (dim_date w)),
              to_sql ''dim_region'' (frame_of_dimension (dim_region w)),
              to_sql ''dim_channel'' (frame_of_dimension (dim_channel w)),
              to_sql ''dim_customer_segment'' (frame_of_dimension (dim_segment w)),
              to_sql ''dim_category'' (frame_of_dimension (dim_category w)),
              to_sql ''dim_product'' (frame_of_dim_product (dim_product w))]"
  let ?fact = "to_sql ''fact_sales'' (frame_of_fact_sales (fact_sales w))"
  let ?all = "[executescript drop_sql] @ ?dims @ [?fact]"
  obtain r c where run: "run_steps ?all (connect db) = (r, c)"
    by (cases "run_steps ?all (connect db)")
  have res: "r = Some e" "db' = committed (rollback c)"
    using assms run unfolding load_to_sqlite_def by (auto split: option.splits)
  have dims: "quiet c2" if "stp \<in> set ?dims" "quiet c1" "stp c1 = (e1, c2)" for stp c1 e1 c2
    using that executescript_quiet to_sql_quiet by auto
  obtain e0 c0 where d: "executescript drop_sql (connect db) = (e0, c0)"
    by (cases "executescript drop_sql (connect db)")
  have q0: "quiet c0"
    using d by (rule drop_sql_quiet)
  have "quiet c"
  proof (cases e0)
    case (Some err)
    then have "c = c0"
      using run d by simp
    then show ?thesis using q0 by simp
  next
    case None
    obtain e1 c1 where m: "run_steps ?dims c0 = (e1, c1)"
      by (cases "run_steps ?dims c0")
    have q1: "quiet c1"
      using dims q0 m by (rule run_steps_quiet)
    have "run_steps ?all (connect db) = run_steps (?dims @ [?fact]) c0"
      using d None by simp
    then have rest: "run_steps (?dims @ [?fact]) c0 = (Some e, c)"
      using run res(1) by simp
    show ?thesis
    proof (cases e1)
      case (Some err)
      then have "c = c1"
        using rest m by (simp only: run_steps_append) simp
      then show ?thesis using q1 by simp
    next
      case None
      then have "?fact c1 = (Some e, c)"
        using rest m by (simp only: run_steps_append) (simp split: prod.splits option.splits)
      then show ?thesis
        using q1 to_sql_quiet by blast
    qed
  qed
  then have "fact_empty db'"
    unfolding res(2) by (simp add: quiet_def rollback_def)
  then show ?thesis
    by (simp add: fact_empty_def)
qed

theorem failed_load_fact_table_empty_witness:
  "load_to_sqlite schema_sql duplicate_warehouse Map.empty
     = (Some IntegrityError, snd (load_to_sqlite schema_sql duplicate_warehouse Map.empty))
   \<and> (case snd (load_to_sqlite schema_sql duplicate_warehouse Map.empty) ''fact_sales'' of
         None \<Rightarrow> True | Some t \<Rightarrow> tbl_rows t = [])"
proof -
  have h: "load_to_sqlite schema_sql duplicate_warehouse Map.empty
     = (Some IntegrityError, snd (load_to_sqlite schema_sql duplicate_warehouse Map.empty))"
    using load_duplicate [of Map.empty] by (simp add: case_prod_beta prod_eq_iff)
  from failed_load_fact_table_empty [OF h] h show ?thesis
    by blast
qed

subsection \<open>Rebuilding the warehouse\<close>

lemma local_stepI:
  assumes "\<And>c1 c2. settled S c1 \<Longrightarrow> settled S c2 \<Longrightarrow> agree S c1 c2 \<Longrightarrow>
        fst (stp c1) = fst (stp c2) \<and> settled S (snd (stp c1)) \<and> agree S (snd (stp c1)) (snd (stp c2))
        \<and> same_outside S c1 (snd (stp c1))"
  shows "local_step S stp"
proof -
  have sym: "agree S c2 c1" if "agree S c1 c2" for c1 c2
    using that by (auto simp: agree_def)
  show ?thesis
    unfolding local_step_def
    using assms sym by metis
qed

lemma same_outside_refl: "same_outside S c c"
  by (simp add: same_outside_def)

lemma same_outside_trans: "same_outside S a b \<Longrightarrow> same_outside S b c \<Longrightarrow> same_outside S a c"
  by (simp add: same_outside_def)

lemma run_steps_local:
  assumes "\<And>stp. stp \<in> set stps \<Longrightarrow> local_step S stp"
  shows "local_step S (run_steps stps)"
  using assms
proof (induction stps)
  case Nil
  show ?case
    by (rule local_stepI) (simp add: same_outside_refl)
next
  case (Cons stp stps)
  have l1: "local_step S stp"
    using Cons.prems by simp
  have l2: "local_step S (run_steps stps)"
    using Cons.IH Cons.prems by simp
  show ?case
  proof (rule local_stepI)
    fix c1 c2
    assume a: "settled S c1" "settled S c2" "agree S c1 c2"
    obtain e1 d1 where s1: "stp c1 = (e1, d1)" by (cases "stp c1")
    obtain e2 d2 where s2: "stp c2 = (e2, d2)" by (cases "stp c2")
    from l1 a s1 s2 have f: "e1 = e2" "settled S d1" "settled S d2" "agree S d1 d2"
      "same_outside S c1 d1" "same_outside S c2 d2"
      unfolding local_step_def by (metis fst_conv snd_conv)+
    show "fst (run_steps (stp # stps) c1) = fst (run_steps (stp # stps) c2)
        \<and> settled S (snd (run_steps (stp # stps) c1))
        \<and> agree S (snd (run_steps (stp # stps) c1)) (snd (run_steps (stp # stps) c2))
        \<and> same_outside S c1 (snd (run_steps (stp # stps) c1))"
    proof (cases e1)
      case (Some err)
      then show ?thesis
        using f s1 s2 by simp
    next
      case None
      from l2 f(2,3,4) have g: "fst (run_steps stps d1) = fst (run_steps stps d2)"
        "settled S (snd (run_steps stps d1))"
        "agree S (snd (run_steps stps d1)) (snd (run_steps stps d2))"
        "same_outside S d1 (snd (run_steps stps d1))"
        unfolding local_step_def by metis+
      have "same_outside S c1 (snd (run_steps stps d1))"
        using f(5) g(4) by (rule same_outside_trans)
      then show ?thesis
        using None f(1) s1 s2 g by simp
    qed
  qed
qed

lemma settled_commit: "settled S c \<Longrightarrow> commit c = c"
  by (simp add: settled_def commit_def)

lemma settled_rollback: "settled S c \<Longrightarrow> rollback c = c"
  by (simp add: settled_def rollback_def)

lemma exec_statement_local:
  assumes "stmt_local S st" and "settled S c1" and "settled S c2" and "agree S c1 c2"
  shows "(\<exists>e. exec_statement st c1 = Inl e \<and> exec_statement st c2 = Inl e)
       \<or> (\<exists>d1 d2. exec_statement st c1 = Inr d1 \<and> exec_statement st c2 = Inr d2
             \<and> settled S d1 \<and> settled S d2 \<and> agree S d1 d2
             \<and> same_outside S c1 d1 \<and> same_outside S c2 d2)"
proof (cases st)
  case (PragmaForeignKeys b)
  then show ?thesis
    using assms by (auto simp: settled_def agree_def same_outside_def)
next
  case (DropTableIfExists n)
  then show ?thesis
    using assms by (auto simp: stmt_local_def settled_def agree_def same_outside_def commit_def)
next
  case (CreateTable n cols pk fks)
  then have n: "n \<in> S" and fks: "\<forall>fk \<in> set fks. fst (snd fk) \<in> S"
    using assms(1) by (simp_all add: stmt_local_def)
  have same: "working c1 n = working c2 n"
    using assms(4) n by (simp add: agree_def)
  show ?thesis
  proof (cases "working c1 n")
    case (Some t)
    then show ?thesis
      using CreateTable same by simp
  next
    case None
    then show ?thesis
      using CreateTable same n fks assms(2,3,4)
      by (auto simp: settled_def agree_def same_outside_def commit_def)
  qed
qed

lemma run_script_local:
  assumes "\<forall>st \<in> set sts. stmt_local S st"
  shows "local_step S (run_script sts)"
  using assms
proof (induction sts)
  case Nil
  show ?case
    by (rule local_stepI) (simp add: same_outside_refl)
next
  case (Cons st sts)
  have l2: "local_step S (run_script sts)"
    using Cons by simp
  have st: "stmt_local S st"
    using Cons.prems by simp
  show ?case
  proof (rule local_stepI)
    fix c1 c2
    assume a: "settled S c1" "settled S c2" "agree S c1 c2"
    from exec_statement_local [OF st a]
    show "fst (run_script (st # sts) c1) = fst (run_script (st # sts) c2)
        \<and> settled S (snd (run_script (st # sts) c1))
        \<and> agree S (snd (run_script (st # sts) c1)) (snd (run_script (st # sts) c2))
        \<and> same_outside S c1 (snd (run_script (st # sts) c1))"
    proof (elim disjE exE conjE)
      fix e
      assume "exec_statement st c1 = Inl e" "exec_statement st c2 = Inl e"
      then show ?thesis
        using a by (simp add: same_outside_refl)
    next
      fix d1 d2
      assume d: "exec_statement st c1 = Inr d1" "exec_statement st c2 = Inr d2"
        "settled S d1" "settled S d2" "agree S d1 d2" "same_outside S c1 d1"
      from l2 d(3,4,5) have g: "fst (run_script sts d1) = fst (run_script sts d2)"
        "settled S (snd (run_script sts d1))"
        "agree S (snd (run_script sts d1)) (snd (run_script sts d2))"
        "same_outside S d1 (snd (run_script sts d1))"
        unfolding local_step_def by metis+
      have "same_outside S c1 (snd (run_script sts d1))"
        using d(6) g(4) by (rule same_outside_trans)
      then show ?thesis
        using d(1,2) g by simp
    qed
  qed
qed

lemma executescript_local:
  assumes "\<forall>st \<in> set script. stmt_local S st"
  shows "local_step S (executescript script)"
proof (rule local_stepI)
  fix c1 c2
  assume a: "settled S c1" "settled S c2" "agree S c1 c2"
  have "executescript script c1 = run_script script c1" "executescript script c2 = run_script script c2"
    using a by (simp_all add: executescript_def settled_commit)
  then show "fst (executescript script c1) = fst (executescript script c2)
        \<and> settled S (snd (executescript script c1))
        \<and> agree S (snd (executescript script c1)) (snd (executescript script c2))
        \<and> same_outside S c1 (snd (executescript script c1))"
    using run_script_local [OF assms] a unfolding local_step_def by metis
qed

lemma foreign_keys_ok_cong:
  assumes "\<forall>fk \<in> set (tbl_foreign_keys t). d1 (fst (snd fk)) = d2 (fst (snd fk))"
  shows "foreign_keys_ok d1 t rs = foreign_keys_ok d2 t rs"
  unfolding foreign_keys_ok_def
proof (rule list_all_cong [OF refl])
  fix fk
  assume mem: "fk \<in> set (tbl_foreign_keys t)"
  obtain col parent pcol where fk: "fk = (col, parent, pcol)"
    by (cases fk) auto
  have "d1 parent = d2 parent"
    using assms mem fk by force
  then show "(case fk of (col, parent, pcol) \<Rightarrow>
          list_all (\<lambda>row. cell (tbl_columns t) row col = SqlNull
             \<or> (case d1 parent of None \<Rightarrow> False
                 | Some p \<Rightarrow> cell (tbl_columns t) row col
                      \<in> set (map (\<lambda>prow. cell (tbl_columns p) prow pcol) (tbl_rows p)))) rs)
        = (case fk of (col, parent, pcol) \<Rightarrow>
          list_all (\<lambda>row. cell (tbl_columns t) row col = SqlNull
             \<or> (case d2 parent of None \<Rightarrow> False
                 | Some p \<Rightarrow> cell (tbl_columns t) row col
                      \<in> set (map (\<lambda>prow. cell (tbl_columns p) prow pcol) (tbl_rows p)))) rs)"
    unfolding fk by (simp only: prod.case)
qed

lemma insert_rows_local:
  assumes "name \<in> S"
  shows "local_step S (insert_rows name fr)"
proof (rule local_stepI)
  fix c1 c2
  assume a: "settled S c1" "settled S c2" "agree S c1 c2"
  have same: "working c1 name = working c2 name" and fk: "fk_enforced c1 = fk_enforced c2"
    using a(3) assms by (simp_all add: agree_def)
  note rb = settled_rollback [OF a(1)] settled_rollback [OF a(2)]
  show "fst (insert_rows name fr c1) = fst (insert_rows name fr c2)
        \<and> settled S (snd (insert_rows name fr c1))
        \<and> agree S (snd (insert_rows name fr c1)) (snd (insert_rows name fr c2))
        \<and> same_outside S c1 (snd (insert_rows name fr c1))"
  proof (cases "working c1 name")
    case None
    then show ?thesis
      using same a rb by (simp add: insert_rows_def same_outside_refl)
  next
    case (Some t)
    show ?thesis
    proof (cases "set (frame_columns fr) \<subseteq> set (tbl_columns t)")
      case False
      then show ?thesis
        using Some same a rb by (simp add: insert_rows_def same_outside_refl)
    next
      case True
      let ?new = "map (\<lambda>row. map (cell (frame_columns fr) row) (tbl_columns t)) (frame_rows fr)"
      let ?t' = "t\<lparr>tbl_rows := tbl_rows t @ ?new\<rparr>"
      let ?d1 = "(working c1)(name \<mapsto> ?t')" and ?d2 = "(working c2)(name \<mapsto> ?t')"
      have parents: "\<forall>fk \<in> set (tbl_foreign_keys t). fst (snd fk) \<in> S"
        using a(1) Some assms by (auto simp: settled_def)
      have "\<forall>fk \<in> set (tbl_foreign_keys t). ?d1 (fst (snd fk)) = ?d2 (fst (snd fk))"
        using parents a(3) by (auto simp: agree_def)
      then have fko: "foreign_keys_ok ?d1 t ?new = foreign_keys_ok ?d2 t ?new"
        by (rule foreign_keys_ok_cong)
      let ?ok1 = "primary_key_ok ?t' \<and> (if fk_enforced c1 then foreign_keys_ok ?d1 t ?new else True)"
      let ?ok2 = "primary_key_ok ?t' \<and> (if fk_enforced c2 then foreign_keys_ok ?d2 t ?new else True)"
      have oks: "?ok1 = ?ok2"
        using fko fk by simp
      have r1: "insert_rows name fr c1
                = (if ?ok1 then (None, commit (c1\<lparr>working := ?d1\<rparr>)) else (Some IntegrityError, c1))"
        using Some True rb by (simp add: insert_rows_def Let_def)
      have r2: "insert_rows name fr c2
                = (if ?ok2 then (None, commit (c2\<lparr>working := ?d2\<rparr>)) else (Some IntegrityError, c2))"
        using Some True same rb by (simp add: insert_rows_def Let_def)
      show ?thesis
      proof (cases ?ok1)
        case False
        then show ?thesis
          unfolding r1 r2 using oks a by (simp add: same_outside_refl)
      next
        case ok: True
        have s1: "settled S (commit (c1\<lparr>working := ?d1\<rparr>))"
          using a(1) parents by (auto simp: settled_def commit_def)
        have ag: "agree S (commit (c1\<lparr>working := ?d1\<rparr>)) (commit (c2\<lparr>working := ?d2\<rparr>))"
          using a(3) by (auto simp: agree_def commit_def)
        have so: "same_outside S c1 (commit (c1\<lparr>working := ?d1\<rparr>))"
          using assms by (auto simp: same_outside_def commit_def)
        show ?thesis
          unfolding r1 r2 using ok oks s1 ag so by simp
      qed
    qed
  qed
qed

lemma to_sql_local:
  assumes "name \<in> S"
  shows "local_step S (to_sql name fr)"
proof (rule local_stepI)
  fix c1 c2
  assume a: "settled S c1" "settled S c2" "agree S c1 c2"
  have same: "working c1 name = working c2 name"
    using a(3) assms by (simp add: agree_def)
  note ins = insert_rows_local [OF assms, of fr, unfolded local_step_def, rule_format]
  show "fst (to_sql name fr c1) = fst (to_sql name fr c2)
        \<and> settled S (snd (to_sql name fr c1))
        \<and> agree S (snd (to_sql name fr c1)) (snd (to_sql name fr c2))
        \<and> same_outside S c1 (snd (to_sql name fr c1))"
  proof (cases "working c1 name")
    case (Some t)
    then have "to_sql name fr c1 = insert_rows name fr c1" "to_sql name fr c2 = insert_rows name fr c2"
      using same by (simp_all add: to_sql_def)
    then show ?thesis
      using ins [of c1 c2] a by simp
  next
    case None
    let ?mk = "\<lambda>c. commit (c\<lparr>working := (working c)(name \<mapsto>
               \<lparr>tbl_columns = frame_columns fr, tbl_primary_key = [],
                tbl_foreign_keys = [], tbl_rows = []\<rparr>)\<rparr>)"
    have t: "to_sql name fr c1 = insert_rows name fr (?mk c1)"
      "to_sql name fr c2 = insert_rows name fr (?mk c2)"
      using None same by (simp_all add: to_sql_def)
    have s: "settled S (?mk c1)" "settled S (?mk c2)"
      using a(1,2) by (auto simp: settled_def commit_def)
    have ag: "agree S (?mk c1) (?mk c2)"
      using a(3) by (auto simp: agree_def commit_def)
    have so: "same_outside S c1 (?mk c1)"
      using assms by (auto simp: same_outside_def commit_def)
    from ins [of "?mk c1" "?mk c2"] s ag
    have "fst (insert_rows name fr (?mk c1)) = fst (insert_rows name fr (?mk c2))
        \<and> settled S (snd (insert_rows name fr (?mk c1)))
        \<and> agree S (snd (insert_rows name fr (?mk c1))) (snd (insert_rows name fr (?mk c2)))
        \<and> same_outside S (?mk c1) (snd (insert_rows name fr (?mk c1)))"
      by simp
    then show ?thesis
      unfolding t using so same_outside_trans by blast
  qed
qed

lemma schema_sql_local: "script_local warehouse_tables schema_sql"
  by (simp add: script_local_def stmt_local_def warehouse_tables_def schema_sql_def)

lemma drop_tables_inside: "n \<in> set warehouse_tables \<Longrightarrow> drop_tables db n = None"
  by (auto simp: warehouse_tables_def drop_tables_def)

lemma drop_tables_outside: "n \<notin> set warehouse_tables \<Longrightarrow> drop_tables db n = db n"
  by (auto simp: warehouse_tables_def drop_tables_def)

lemma load_to_sqlite_local:
  assumes "script_local warehouse_tables schema"
  shows "fst (load_to_sqlite schema w db1) = fst (load_to_sqlite schema w db2)
       \<and> (\<forall>n \<in> set warehouse_tables.
             snd (load_to_sqlite schema w db1) n = snd (load_to_sqlite schema w db2) n)
       \<and> (\<forall>n. n \<notin> set warehouse_tables \<longrightarrow> snd (load_to_sqlite schema w db1) n = db1 n)"
proof -
  let ?S = "set warehouse_tables"
  let ?rest = "[executescript schema,
              to_sql ''dim_date'' (frame_of_dim_date (dim_date w)),
              to_sql ''dim_region'' (frame_of_dimension (dim_region w)),
              to_sql ''dim_channel'' (frame_of_dimension (dim_channel w)),
              to_sql ''dim_customer_segment'' (frame_of_dimension (dim_segment w)),
              to_sql ''dim_category'' (frame_of_dimension (dim_category w)),
              to_sql ''dim_product'' (frame_of_dim_product (dim_product w)),
              to_sql ''fact_sales'' (frame_of_fact_sales (fact_sales w))]"
  let ?c0 = "\<lambda>db. \<lparr>committed = drop_tables db, working = drop_tables db, fk_enforced = True\<rparr>"
  have names: "''dim_date'' \<in> ?S" "''dim_region'' \<in> ?S" "''dim_channel'' \<in> ?S"
    "''dim_customer_segment'' \<in> ?S" "''dim_category'' \<in> ?S" "''dim_product'' \<in> ?S"
    "''fact_sales'' \<in> ?S"
    by (simp_all add: warehouse_tables_def)
  have "\<forall>st \<in> set schema. stmt_local ?S st"
    using assms by (simp add: script_local_def list_all_iff)
  then have "local_step ?S (executescript schema)"
    by (rule executescript_local)
  then have "local_step ?S stp" if "stp \<in> set ?rest" for stp
    using that names to_sql_local by auto
  then have loc: "local_step ?S (run_steps ?rest)"
    by (rule run_steps_local)
  have s0: "settled ?S (?c0 db)" for db
    by (simp add: settled_def drop_tables_inside)
  have a0: "agree ?S (?c0 db1) (?c0 db2)"
    by (simp add: agree_def drop_tables_inside)
  have run: "load_to_sqlite schema w db
             = (fst (run_steps ?rest (?c0 db)), working (snd (run_steps ?rest (?c0 db))))" for db
  proof -
    obtain e c where r: "run_steps ?rest (?c0 db) = (e, c)"
      by (cases "run_steps ?rest (?c0 db)")
    have st: "settled ?S c"
      using loc s0 [of db] r unfolding local_step_def agree_def by (metis snd_conv)
    have cr: "commit c = c" "rollback c = c" "committed c = working c"
      using settled_commit [OF st] settled_rollback [OF st] st
      by (simp_all add: settled_def)
    have "load_to_sqlite schema w db = (case (e, c) of (None, c) \<Rightarrow> (None, committed (commit c))
                                          | (Some e, c) \<Rightarrow> (Some e, committed (rollback c)))"
      unfolding load_to_sqlite_def using r by (simp add: drop_sql_connect)
    then show ?thesis
      using r cr by (cases e) simp_all
  qed
  from loc s0 [of db1] s0 [of db2] a0
  have res: "fst (run_steps ?rest (?c0 db1)) = fst (run_steps ?rest (?c0 db2))"
    "agree ?S (snd (run_steps ?rest (?c0 db1))) (snd (run_steps ?rest (?c0 db2)))"
    "same_outside ?S (?c0 db1) (snd (run_steps ?rest (?c0 db1)))"
    unfolding local_step_def by blast+
  have out: "working (snd (run_steps ?rest (?c0 db1))) n = db1 n" if "n \<notin> ?S" for n
    using res(3) that by (simp add: same_outside_def drop_tables_outside)
  show ?thesis
    using res(1,2) out by (simp add: run agree_def)
qed

text \<open>
  Claim C9. The build is a function of the raw frame: when a build succeeds, running it
  again on the same input, on the database the first run left, succeeds and leaves exactly
  that database; and a build of the same input on any other prior database succeeds with the
  same seven warehouse tables, hence the same surrogate keys. The database is compared as
  tables and rows; the bytes of the file are outside the model.
\<close>

theorem rebuild_idempotent:
  assumes "main sales_df db = (None, db')"
  shows "main sales_df db' = (None, db')
       \<and> (\<forall>other. fst (main sales_df other) = None
             \<and> (\<forall>n \<in> set warehouse_tables. snd (main sales_df other) n = db' n))"
proof -
  from assms obtain w where w: "transform_to_star_schema sales_df = Inr w"
    and l: "load_to_sqlite schema_sql w db = (None, db')"
    by (auto simp: main_def split: sum.splits)
  have m: "main sales_df d = load_to_sqlite schema_sql w d" for d
    by (simp add: main_def w)
  note loc = load_to_sqlite_local [OF schema_sql_local, of w]
  have any: "fst (load_to_sqlite schema_sql w d) = None
             \<and> (\<forall>n \<in> set warehouse_tables. snd (load_to_sqlite schema_sql w d) n = db' n)" for d
    using loc [of d db] l by simp
  have "snd (load_to_sqlite schema_sql w db') n = db' n" for n
    using any [of db'] loc [of db' db'] by (cases "n \<in> set warehouse_tables") auto
  then have "snd (load_to_sqlite schema_sql w db') = db'"
    by (rule ext)
  then have "load_to_sqlite schema_sql w db' = (None, db')"
    using any [of db'] by (simp add: prod_eq_iff)
  then show ?thesis
    using any by (simp add: m)
qed

theorem rebuild_idempotent_witness:
  "main example_frame Map.empty = (None, snd (main example_frame Map.empty))
   \<and> main example_frame (snd (main example_frame Map.empty))
       = (None, snd (main example_frame Map.empty))"
proof -
  have h: "main example_frame Map.empty = (None, snd (main example_frame Map.empty))"
    using load_example [of Map.empty]
    by (simp add: main_def transform_example case_prod_beta prod_eq_iff)
  from rebuild_idempotent [OF h] h show ?thesis
    by blast
qed

end
